theory Spec2Isabelle
  imports Main
begin

unbundle bit_operations_syntax

section \<open>Common data\<close>

text \<open>
  The exceptions the two modules can raise, as values. \<open>KernelFault\<close> stands for a
  specialised kernel reading or writing outside the tensors it was handed: the behaviour
  of the program is not defined there, and no theorem below depends on it.
\<close>

datatype error = IndexError | RuntimeError | AttributeError | AssertionError | KernelFault

text \<open>
  Values of \<open>torch.dtype\<close>. \<open>fast_dispatch.py\<close> compares a dtype with
  \<open>torch.float16\<close> only.
\<close>

datatype dtype = float16 | float32 | float64 | bfloat16 | int8

text \<open>
  Sequencing of fallible steps: the first exception raised ends the computation.
\<close>

fun bind_err :: "error + 'a \<Rightarrow> ('a \<Rightarrow> error + 'b) \<Rightarrow> error + 'b" where
  "bind_err (Inl e) f = Inl e"
| "bind_err (Inr x) f = f x"

section \<open>The sparse dispatcher (\<open>impls/fast_dispatch.py\<close>)\<close>

text \<open>
  A two-dimensional tensor is the list of its rows. The elements are taken from a
  commutative ring: rounding is not modelled, so \<open>x.to(dtype)\<close> is the identity on
  values. Index tensors hold Python integers (\<open>to(torch.int32)\<close> is taken on values
  that fit). In the float16 path every lane holds two halves and a token's weight is
  written to both (\<open>x.view(-1, 1).repeat(1, 2)\<close>, \<open>torch.ones([sample_size, 2])\<close>);
  a weight tensor is modelled by the one value per token that both halves carry.
\<close>

type_synonym 'a matrix = "'a list list"

definition torch_zeros :: "int \<Rightarrow> int \<Rightarrow> error + ('a::zero) matrix" where
  "torch_zeros rows cols =
     (if rows < 0 \<or> cols < 0 then Inl RuntimeError
      else Inr (replicate (nat rows) (replicate (nat cols) 0)))"

text \<open>
  \<open>torch.empty\<close> allocates without initialising. The kernels that receive such a
  tensor write every element of it and read none; the model fills it with zeros.
\<close>

definition torch_empty :: "int \<Rightarrow> int \<Rightarrow> error + ('a::zero) matrix" where
  "torch_empty rows cols = torch_zeros rows cols"


definition add_rows :: "('a::plus) list \<Rightarrow> 'a list \<Rightarrow> 'a list" where
  "add_rows u v = map2 (+) u v"

definition add_matrix :: "('a::plus) matrix \<Rightarrow> 'a matrix \<Rightarrow> 'a matrix" where
  "add_matrix a b = map2 add_rows a b"

definition scale_row :: "('a::times) \<Rightarrow> 'a list \<Rightarrow> 'a list" where
  "scale_row g v = map ((*) g) v"

definition dot :: "('a::comm_ring_1) list \<Rightarrow> 'a list \<Rightarrow> 'a" where
  "dot u v = sum_list (map2 (*) u v)"

subsection \<open>The specialised kernels (\<open>jit_kernels/sparse.py\<close>)\<close>

text \<open>
  Modelled from the spec: \<open>jit_kernels/sparse.py\<close> (\<open>create_forward\<close>,
  \<open>create_backward_data\<close>, \<open>create_backward_gate\<close>) is not among the sources.
  The spec gives the three transforms a kernel cache entry holds:
  forward-scatter adds \<open>gate[t] * features[t]\<close> to row \<open>e * capacity + s\<close> of the
  buffer for every token \<open>t\<close> with \<open>(indices[t], locations[t]) = (e, s)\<close> and
  \<open>s < capacity\<close>, and skips the others; backward-data pulls for each token the row of its
  slot, times its gate, and a zero row when the token is dropped; backward-gate is, per
  token, the dot product of the incoming row and the row of its slot.
  A slot row outside the buffer, or an argument with fewer entries than the sample
  count the kernel was built for, is \<open>KernelFault\<close>.
\<close>

definition slot_row :: "int \<Rightarrow> int \<Rightarrow> int \<Rightarrow> int" where
  "slot_row cap e s = e * cap + s"

definition scatter_token ::
  "int \<Rightarrow> 'a \<Rightarrow> int \<Rightarrow> int \<Rightarrow> 'a list \<Rightarrow> ('a::comm_ring_1) matrix \<Rightarrow> error + 'a matrix" where
  "scatter_token cap g e s x buf =
     (if s < cap then
        (let r = slot_row cap e s in
         if 0 \<le> r \<and> r < int (length buf)
         then Inr (buf[nat r := add_rows (buf ! nat r) (scale_row g x)])
         else Inl KernelFault)
      else Inr buf)"

primrec scatter_loop ::
  "int \<Rightarrow> 'a list \<Rightarrow> int list \<Rightarrow> int list \<Rightarrow> 'a matrix \<Rightarrow> ('a::comm_ring_1) matrix \<Rightarrow> nat
     \<Rightarrow> error + 'a matrix" where
  "scatter_loop cap gs idx loc inp buf 0 = Inr buf"
| "scatter_loop cap gs idx loc inp buf (Suc t) =
     bind_err (scatter_loop cap gs idx loc inp buf t)
       (scatter_token cap (gs ! t) (idx ! t) (loc ! t) (inp ! t))"

definition args_cover :: "nat \<Rightarrow> 'g list \<Rightarrow> int list \<Rightarrow> int list \<Rightarrow> 'r list \<Rightarrow> bool" where
  "args_cover n gs idx loc rows \<longleftrightarrow>
     n \<le> length gs \<and> n \<le> length idx \<and> n \<le> length loc \<and> n \<le> length rows"

definition create_forward ::
  "int \<Rightarrow> int \<Rightarrow> int \<Rightarrow> int \<Rightarrow> dtype
     \<Rightarrow> 'a list \<Rightarrow> int list \<Rightarrow> int list \<Rightarrow> 'a matrix \<Rightarrow> ('a::comm_ring_1) matrix
     \<Rightarrow> error + 'a matrix" where
  "create_forward samples experts cap hidden dt gs idx loc inp buf =
     (if args_cover (nat samples) gs idx loc inp
      then scatter_loop cap gs idx loc inp buf (nat samples)
      else Inl KernelFault)"

definition gather_token ::
  "int \<Rightarrow> 'a \<Rightarrow> int \<Rightarrow> int \<Rightarrow> ('a::comm_ring_1) matrix \<Rightarrow> 'a list \<Rightarrow> error + 'a list" where
  "gather_token cap g e s buf old =
     (if s < cap then
        (let r = slot_row cap e s in
         if 0 \<le> r \<and> r < int (length buf)
         then Inr (scale_row g (buf ! nat r))
         else Inl KernelFault)
      else Inr (map (\<lambda>_. 0) old))"

primrec gather_loop ::
  "int \<Rightarrow> 'a list \<Rightarrow> ('a::comm_ring_1) matrix \<Rightarrow> int list \<Rightarrow> int list \<Rightarrow> 'a matrix \<Rightarrow> nat
     \<Rightarrow> error + 'a matrix" where
  "gather_loop cap gs buf idx loc out 0 = Inr out"
| "gather_loop cap gs buf idx loc out (Suc t) =
     bind_err (gather_loop cap gs buf idx loc out t) (\<lambda>out'.
       bind_err (gather_token cap (gs ! t) (idx ! t) (loc ! t) buf (out ! t)) (\<lambda>row.
         Inr (out'[t := row])))"

definition create_backward_data ::
  "int \<Rightarrow> int \<Rightarrow> int \<Rightarrow> int \<Rightarrow> dtype
     \<Rightarrow> 'a list \<Rightarrow> ('a::comm_ring_1) matrix \<Rightarrow> int list \<Rightarrow> int list \<Rightarrow> 'a matrix
     \<Rightarrow> error + 'a matrix" where
  "create_backward_data samples experts cap hidden dt gs buf idx loc out =
     (if args_cover (nat samples) gs idx loc out
      then gather_loop cap gs buf idx loc out (nat samples)
      else Inl KernelFault)"

definition gate_token ::
  "int \<Rightarrow> int \<Rightarrow> int \<Rightarrow> ('a::comm_ring_1) matrix \<Rightarrow> 'a list \<Rightarrow> error + 'a" where
  "gate_token cap e s buf row =
     (if s < cap then
        (let r = slot_row cap e s in
         if 0 \<le> r \<and> r < int (length buf)
         then Inr (dot row (buf ! nat r))
         else Inl KernelFault)
      else Inr 0)"

primrec gate_loop ::
  "int \<Rightarrow> ('a::comm_ring_1) matrix \<Rightarrow> int list \<Rightarrow> int list \<Rightarrow> 'a matrix \<Rightarrow> 'a list \<Rightarrow> nat
     \<Rightarrow> error + 'a list" where
  "gate_loop cap buf idx loc inp out 0 = Inr out"
| "gate_loop cap buf idx loc inp out (Suc t) =
     bind_err (gate_loop cap buf idx loc inp out t) (\<lambda>out'.
       bind_err (gate_token cap (idx ! t) (loc ! t) buf (inp ! t)) (\<lambda>v.
         Inr (out'[t := v])))"

definition create_backward_gate ::
  "int \<Rightarrow> int \<Rightarrow> int \<Rightarrow> int \<Rightarrow> dtype
     \<Rightarrow> ('a::comm_ring_1) matrix \<Rightarrow> int list \<Rightarrow> int list \<Rightarrow> 'a matrix \<Rightarrow> 'a list
     \<Rightarrow> error + 'a list" where
  "create_backward_gate samples experts cap hidden dt buf idx loc inp out =
     (if args_cover (nat samples) out idx loc inp
      then gate_loop cap buf idx loc inp out (nat samples)
      else Inl KernelFault)"

subsection \<open>The dispatcher object\<close>

text \<open>
  \<open>func_fwd\<close>, \<open>func_bwd_data\<close>, \<open>func_bwd_gate\<close> and \<open>ones_helper\<close> are
  attributes that only \<open>update\<close> assigns, all four together; they are also the value of
  a \<open>kernel_pool\<close> entry. Each kernel mutates its last argument; the model returns it.
  \<open>kernel_builds\<close> is not an attribute of the class: it counts, per key
  \<open>(sample_size, capacity)\<close>, how often \<open>update\<close> has had the three kernels built
  (the calls of \<open>jit_kernel.create_forward\<close>, \<open>create_backward_data\<close> and
  \<open>create_backward_gate\<close>, always made together).
  The attributes \<open>indices_\<close>, \<open>locations_\<close> and \<open>gates_\<close> are the fields
  \<open>indices\<close>, \<open>locations\<close> and \<open>gates\<close>: a name cannot end in an underscore here.
\<close>

record 'a kernels =
  func_fwd :: "'a list \<Rightarrow> int list \<Rightarrow> int list \<Rightarrow> 'a matrix \<Rightarrow> 'a matrix \<Rightarrow> error + 'a matrix"
  func_bwd_data :: "'a list \<Rightarrow> 'a matrix \<Rightarrow> int list \<Rightarrow> int list \<Rightarrow> 'a matrix \<Rightarrow> error + 'a matrix"
  func_bwd_gate :: "'a matrix \<Rightarrow> int list \<Rightarrow> int list \<Rightarrow> 'a matrix \<Rightarrow> 'a list \<Rightarrow> error + 'a list"
  ones_helper :: "'a list"

record 'a dispatcher =
  expected_sample_size :: int
  num_global_experts :: int
  capacity :: int
  model_dim :: int
  kernel_pool :: "(int \<times> int) \<rightharpoonup> 'a kernels"
  dtype :: dtype
  original_dtype :: dtype
  aligned_dim :: int
  indices :: "int list list"
  locations :: "int list list"
  gates :: "'a list list"
  installed_kernels :: "'a kernels option"
  kernel_builds :: "int \<times> int \<Rightarrow> nat"

text \<open>
  \<open>TutelMoeFastDispatcher.__init__\<close>. \<open>IS_HIP_EXTENSION\<close> comes from
  \<open>jit_compiler\<close> and is a parameter. Before the first \<open>update\<close> the routing lists
  and the kernel attributes do not exist (\<open>installed_kernels = None\<close>).
\<close>

definition init_dispatcher :: "bool \<Rightarrow> int \<Rightarrow> int \<Rightarrow> int \<Rightarrow> dtype \<Rightarrow> 'a dispatcher" where
  "init_dispatcher is_hip_extension num_global_experts' capacity' model_dim' dispatch_dtype =
     (let dt = (if is_hip_extension \<or> dispatch_dtype \<noteq> float16 then float32 else dispatch_dtype)
      in \<lparr> expected_sample_size = - 1,
           num_global_experts = num_global_experts',
           capacity = capacity',
           model_dim = model_dim',
           kernel_pool = Map.empty,
           dtype = dt,
           original_dtype = dispatch_dtype,
           aligned_dim = model_dim' div (if dt = float16 then 2 else 1),
           indices = [],
           locations = [],
           gates = [],
           installed_kernels = None,
           kernel_builds = (\<lambda>_. 0) \<rparr>)"

definition build_kernels :: "int \<Rightarrow> int \<Rightarrow> int \<Rightarrow> int \<Rightarrow> dtype \<Rightarrow> ('a::comm_ring_1) kernels" where
  "build_kernels sample_size experts cap hidden dt =
     \<lparr> func_fwd = create_forward sample_size experts cap hidden dt,
       func_bwd_data = create_backward_data sample_size experts cap hidden dt,
       func_bwd_gate = create_backward_gate sample_size experts cap hidden dt,
       ones_helper = replicate (nat sample_size) 1 \<rparr>"

text \<open>
  \<open>update\<close>. The optional \<open>capacity\<close> argument goes through Python's \<open>or\<close>:
  \<open>None\<close> and \<open>0\<close> both select the stored capacity. \<open>self.indices_[0]\<close> raises
  \<open>IndexError\<close> on an empty list of routing choices.
\<close>

definition capacity_or :: "int option \<Rightarrow> int \<Rightarrow> int" where
  "capacity_or capacity_arg stored =
     (case capacity_arg of None \<Rightarrow> stored | Some c \<Rightarrow> if c = 0 then stored else c)"

definition update ::
  "('a::comm_ring_1) dispatcher \<Rightarrow> int list list \<Rightarrow> int list list \<Rightarrow> 'a list list \<Rightarrow> int option
     \<Rightarrow> error + 'a dispatcher" where
  "update self indices' locations' gates' capacity_arg =
     (let d1 = self\<lparr> indices := indices', locations := locations', gates := gates' \<rparr> in
      case indices' of
        [] \<Rightarrow> Inl IndexError
      | first # _ \<Rightarrow>
          (let sample_size = int (length first);
               capacity' = capacity_or capacity_arg (capacity self)
           in if sample_size \<noteq> expected_sample_size self \<or> capacity' \<noteq> capacity self then
                (let d2 = d1\<lparr> expected_sample_size := sample_size, capacity := capacity' \<rparr> in
                 case kernel_pool d2 (sample_size, capacity') of
                   None \<Rightarrow>
                     (let k = build_kernels sample_size (num_global_experts d2) (capacity d2)
                                (aligned_dim d2) (dtype d2)
                      in Inr (d2\<lparr> installed_kernels := Some k,
                                  kernel_builds := (kernel_builds d2)
                                    ((sample_size, capacity') :=
                                       kernel_builds d2 (sample_size, capacity') + 1),
                                  kernel_pool := (kernel_pool d2)((sample_size, capacity') \<mapsto> k) \<rparr>))
                 | Some k \<Rightarrow> Inr (d2\<lparr> installed_kernels := Some k \<rparr>))
              else Inr d1))"

subsection \<open>\<open>GatingEncoder\<close>\<close>

text \<open>
  \<open>GatingEncoder.forward\<close>: a zero buffer, then one scatter per routing choice
  \<open>i\<close> in \<open>range(len(indices config))\<close>, each adding into the same buffer.
\<close>

primrec encoder_loop ::
  "'a kernels \<Rightarrow> 'a dispatcher \<Rightarrow> 'a matrix \<Rightarrow> 'a matrix \<Rightarrow> nat \<Rightarrow> error + 'a matrix" where
  "encoder_loop k config reshaped_input dispatched_input 0 = Inr dispatched_input"
| "encoder_loop k config reshaped_input dispatched_input (Suc i) =
     bind_err (encoder_loop k config reshaped_input dispatched_input i) (\<lambda>buf.
       if i < length (locations config)
       then func_fwd k (ones_helper k) (indices config ! i) (locations config ! i)
              reshaped_input buf
       else Inl IndexError)"

definition GatingEncoder_forward ::
  "('a::comm_ring_1) dispatcher \<Rightarrow> 'a matrix \<Rightarrow> error + 'a matrix" where
  "GatingEncoder_forward config reshaped_input =
     bind_err (torch_zeros (num_global_experts config * capacity config) (model_dim config))
       (\<lambda>dispatched_input.
          case installed_kernels config of
            None \<Rightarrow> Inl AttributeError
          | Some k \<Rightarrow>
              encoder_loop k config reshaped_input dispatched_input (length (indices config)))"

definition encode :: "('a::comm_ring_1) dispatcher \<Rightarrow> 'a matrix \<Rightarrow> error + 'a matrix" where
  "encode self data = GatingEncoder_forward self data"


text \<open>
  Both \<open>GatingEncoder.backward\<close> and \<open>GatingDecoder.forward\<close> run
  \<open>last_result = x if last_result is None else last_result + x\<close> over the routing
  choices, \<open>x\<close> being the tensor the loop body computes for choice \<open>i\<close>.
\<close>

primrec accumulate_loop ::
  "(nat \<Rightarrow> error + ('a::plus) matrix) \<Rightarrow> nat \<Rightarrow> error + 'a matrix option" where
  "accumulate_loop body 0 = Inr None"
| "accumulate_loop body (Suc i) =
     bind_err (accumulate_loop body i) (\<lambda>last_result.
       bind_err (body i) (\<lambda>x.
         Inr (Some (case last_result of
                      None \<Rightarrow> x
                    | Some acc \<Rightarrow> add_matrix acc x))))"


subsection \<open>\<open>GatingDecoder\<close>\<close>

text \<open>
  \<open>GatingDecoder.forward\<close>: per routing choice a fresh \<open>single_output\<close> of shape
  \<open>[expected_sample_size, model_dim]\<close>, filled by the backward-data kernel with the
  choice's gates; the results are summed. \<open>gates_h2[i]\<close> is read first, then
  \<open>indices_[i]\<close> and \<open>locations_[i]\<close>.
\<close>

definition decoder_single_output ::
  "'a kernels \<Rightarrow> ('a::comm_ring_1) dispatcher \<Rightarrow> 'a matrix \<Rightarrow> 'a list list \<Rightarrow> nat
     \<Rightarrow> error + 'a matrix" where
  "decoder_single_output k config expert_output gates_h2 i =
     bind_err (torch_empty (expected_sample_size config) (model_dim config)) (\<lambda>single_output.
       if i < length gates_h2 \<and> i < length (locations config)
       then func_bwd_data k (gates_h2 ! i) expert_output (indices config ! i)
              (locations config ! i) single_output
       else Inl IndexError)"

definition GatingDecoder_forward ::
  "('a::comm_ring_1) dispatcher \<Rightarrow> 'a matrix \<Rightarrow> 'a list list \<Rightarrow> error + 'a matrix option" where
  "GatingDecoder_forward config expert_output gates' =
     (case installed_kernels config of
        None \<Rightarrow> Inl AttributeError
      | Some k \<Rightarrow>
          accumulate_loop (decoder_single_output k config expert_output gates')
            (length (indices config)))"

text \<open>
  \<open>decode\<close>: the result of the decoder, cast back. With no routing choice the decoder
  returns \<open>None\<close>, and \<open>None.to(...)\<close> raises \<open>AttributeError\<close>.
\<close>

definition decode :: "('a::comm_ring_1) dispatcher \<Rightarrow> 'a matrix \<Rightarrow> error + 'a matrix" where
  "decode self data =
     bind_err (GatingDecoder_forward self data (gates self)) (\<lambda>r.
       case r of None \<Rightarrow> Inl AttributeError | Some out \<Rightarrow> Inr out)"

subsection \<open>States and routing assignments\<close>

text \<open>
  The dispatcher states a program can reach in which \<open>update\<close> has installed a routing
  assignment: a successful \<open>update\<close> on a freshly constructed dispatcher, or on such a
  state again.
\<close>

inductive installed :: "('a::comm_ring_1) dispatcher \<Rightarrow> bool" where
  installed_first:
    "update (init_dispatcher is_hip e c m dt) idx loc gts cap_arg = Inr d \<Longrightarrow> installed d"
| installed_next:
    "installed d \<Longrightarrow> update d idx loc gts cap_arg = Inr d' \<Longrightarrow> installed d'"


text \<open>Every entry of the kernel cache is the one built for its key.\<close>

definition pool_built :: "('a::comm_ring_1) dispatcher \<Rightarrow> bool" where
  "pool_built d \<longleftrightarrow>
     (\<forall>s c k. kernel_pool d (s, c) = Some k \<longrightarrow>
        k = build_kernels s (num_global_experts d) c (aligned_dim d) (dtype d))"


text \<open>The kernels in use are the ones for the current sample count and capacity.\<close>

definition kernels_current :: "('a::comm_ring_1) dispatcher \<Rightarrow> bool" where
  "kernels_current d \<longleftrightarrow>
     installed_kernels d =
       Some (build_kernels (expected_sample_size d) (num_global_experts d) (capacity d)
               (aligned_dim d) (dtype d)) \<and>
     indices d \<noteq> [] \<and>
     expected_sample_size d = int (length (hd (indices d)))"

text \<open>
  The invariants of a routing assignment (spec, data model): one triple per routing
  choice, every sequence of length \<open>sample_size\<close>, expert ids in
  \<open>[0, num_global_experts)\<close>, locations not negative. A location at or above the
  capacity is allowed: it marks a dropped token.
\<close>

definition choice_ok :: "int \<Rightarrow> nat \<Rightarrow> int list \<Rightarrow> int list \<Rightarrow> 'a list \<Rightarrow> bool" where
  "choice_ok experts n idx loc g \<longleftrightarrow>
     length idx = n \<and> length loc = n \<and> length g = n \<and>
     list_all (\<lambda>e. 0 \<le> e \<and> e < experts) idx \<and> list_all (\<lambda>s. 0 \<le> s) loc"

definition routing_ok :: "'a dispatcher \<Rightarrow> bool" where
  "routing_ok d \<longleftrightarrow>
     length (locations d) = length (indices d) \<and>
     length (gates d) = length (indices d) \<and>
     list_all (\<lambda>(idx, loc, g).
         choice_ok (num_global_experts d) (nat (expected_sample_size d)) idx loc g)
       (zip (indices d) (zip (locations d) (gates d))) \<and>
     0 \<le> model_dim d \<and> 0 \<le> capacity d \<and> 0 \<le> num_global_experts d"

text \<open>A tensor of shape \<open>[rows, cols]\<close>.\<close>

definition has_shape :: "nat \<Rightarrow> nat \<Rightarrow> 'a matrix \<Rightarrow> bool" where
  "has_shape rows cols m \<longleftrightarrow> length m = rows \<and> list_all (\<lambda>row. length row = cols) m"


subsection \<open>What the spec says of \<open>encode\<close> and \<open>decode\<close>\<close>

text \<open>
  The share of token \<open>t\<close> in element \<open>j\<close> of buffer row \<open>r\<close> under one routing
  choice: the token's feature when its slot is row \<open>r\<close> and its location is below the
  capacity, zero otherwise.
\<close>

definition dispatch_term :: "int \<Rightarrow> int list \<Rightarrow> int list \<Rightarrow> ('a::zero) matrix \<Rightarrow> nat \<Rightarrow> nat \<Rightarrow> nat \<Rightarrow> 'a" where
  "dispatch_term cap idx loc x r j t =
     (if loc ! t < cap \<and> slot_row cap (idx ! t) (loc ! t) = int r then x ! t ! j else 0)"

text \<open>
  \<open>encode\<close> as the spec words it: the scatter of the first routing choice alone, with
  all weights one.
\<close>

definition encode_first_choice :: "('a::comm_ring_1) dispatcher \<Rightarrow> 'a matrix \<Rightarrow> error + 'a matrix" where
  "encode_first_choice d x =
     bind_err (torch_zeros (num_global_experts d * capacity d) (model_dim d)) (\<lambda>buf.
       let n = nat (expected_sample_size d) in
       scatter_loop (capacity d) (replicate n 1) (indices d ! 0) (locations d ! 0) x buf n)"

text \<open>
  The share of routing choice \<open>i\<close> in element \<open>j\<close> of the combined row of token
  \<open>t\<close>: the gate times the expert output at the token's slot, zero when dropped.
\<close>

text \<open>
  Element \<open>j\<close> of what the backward-data transform pulls for token \<open>t\<close>: the
  weight times the buffer row of the token's slot, zero when the token is dropped.
\<close>

definition gather_term ::
  "int \<Rightarrow> 'a list \<Rightarrow> int list \<Rightarrow> int list \<Rightarrow> ('a::comm_ring_1) matrix \<Rightarrow> nat \<Rightarrow> nat \<Rightarrow> 'a" where
  "gather_term cap gs idx loc buf t j =
     (if loc ! t < cap then gs ! t * buf ! nat (slot_row cap (idx ! t) (loc ! t)) ! j else 0)"

definition combine_term :: "('a::comm_ring_1) dispatcher \<Rightarrow> 'a matrix \<Rightarrow> nat \<Rightarrow> nat \<Rightarrow> nat \<Rightarrow> 'a" where
  "combine_term d y t j i =
     (if locations d ! i ! t < capacity d
      then gates d ! i ! t *
           y ! nat (slot_row (capacity d) (indices d ! i ! t) (locations d ! i ! t)) ! j
      else 0)"

subsection \<open>A small scenario\<close>

text \<open>
  Two experts of capacity one, one token of width one, two routing choices: the first
  sends the token to expert 0, the second to expert 1.
\<close>

definition top2_update :: "error + int dispatcher" where
  "top2_update =
     update (init_dispatcher False 2 1 1 float32) [[0], [1]] [[0], [0]] [[1], [1]] None"

definition top2_state :: "int dispatcher" where
  "top2_state = projr top2_update"

section \<open>The communication operators (\<open>impls/communicate.py\<close>)\<close>

subsection \<open>Tensors, processes and groups\<close>

text \<open>
  A contiguous tensor of any rank: its shape and its elements in row-major order.
  \<open>contiguous()\<close> is the identity on such a value.
\<close>

record 'a tensor =
  shape :: "nat list"
  elems :: "'a list"

definition numel :: "'a tensor \<Rightarrow> nat" where
  "numel t = prod_list (shape t)"

definition wf_tensor :: "'a tensor \<Rightarrow> bool" where
  "wf_tensor t \<longleftrightarrow> length (elems t) = numel t"

text \<open>
  What one process of the group does is modelled: its process-wide state (the class
  attributes \<open>AllToAll.__prepared__\<close> and \<open>AllToAll.a2a_type\<close>) and the trace of
  the calls it issues to the distributed runtime, to the external exchange kernel, and
  to the timing instrumentation.
\<close>

datatype event =
    ExternalAll2All int
  | Broadcast
  | AllToAllSingle
  | AllGather
  | ReduceScatter
  | CudaSynchronize
  | LoggingInfo

fun is_communication :: "event \<Rightarrow> bool" where
  "is_communication CudaSynchronize = False"
| "is_communication LoggingInfo = False"
| "is_communication _ = True"

record process =
  prepared :: bool
  a2a_type :: int
  trace :: "event list"

definition issue :: "event list \<Rightarrow> process \<Rightarrow> process" where
  "issue es st = st\<lparr> trace := trace st @ es \<rparr>"

text \<open>
  A process group as this process sees it: what \<open>dist.get_world_size(group)\<close> and
  \<open>dist.get_rank(group)\<close> return, \<open>None\<close> when they raise (no distributed runtime).
  Both return \<open>-1\<close> to a process that is not a member.
\<close>

record group =
  dist_world_size :: "int option"
  dist_rank :: "int option"

definition get_world_size :: "group \<Rightarrow> int" where
  "get_world_size g = (case dist_world_size g of Some n \<Rightarrow> n | None \<Rightarrow> 1)"

definition get_world_rank :: "group \<Rightarrow> int" where
  "get_world_rank g = (case dist_rank g of Some r \<Rightarrow> r | None \<Rightarrow> 0)"

subsection \<open>The collectives of the distributed runtime\<close>

text \<open>
  \<open>torch.distributed\<close> is outside the repository. A collective completes when every
  member of the group has issued the same call; its result on one process is a function
  of what every rank contributed. The argument \<open>peers\<close> of the operators below lists
  the tensor each rank passes to the call, by rank; the calling process's own entry is
  its argument. A call whose preconditions fail raises.
\<close>

definition contributions :: "group \<Rightarrow> 'a \<Rightarrow> 'a list \<Rightarrow> error + 'a list" where
  "contributions g own peers =
     (if 0 \<le> get_world_rank g \<and> get_world_rank g < get_world_size g \<and>
         int (length peers) = get_world_size g
      then Inr (peers[nat (get_world_rank g) := own])
      else Inl RuntimeError)"

text \<open>
  \<open>all_to_all_single(output, input)\<close> without split sizes: the leading dimension is
  cut into \<open>P\<close> equal parts; part \<open>j\<close> of the output is part \<open>rank\<close> of rank
  \<open>j\<close>'s input.
\<close>

definition part :: "nat \<Rightarrow> nat \<Rightarrow> 'a list \<Rightarrow> 'a list" where
  "part size' k xs = take size' (drop (k * size') xs)"

definition dist_all_to_all_single :: "nat \<Rightarrow> 'a tensor list \<Rightarrow> error + 'a tensor" where
  "dist_all_to_all_single rank ts =
     (let p = length ts; input = ts ! rank in
      if shape input \<noteq> [] \<and> hd (shape input) mod p = 0 \<and>
         list_all (\<lambda>t. shape t = shape input) ts
      then Inr \<lparr> shape = shape input,
                 elems = concat (map (\<lambda>t. part (numel input div p) rank (elems t)) ts) \<rparr>
      else Inl RuntimeError)"

text \<open>
  \<open>all_gather(tensor_list, tensor)\<close>: entry \<open>j\<close> of the list receives rank \<open>j\<close>'s
  tensor. The entries are the rows of one output buffer, so the buffer ends up holding
  the contributions one after the other. Every contribution has as many elements as
  the entry that receives it.
\<close>

definition dist_all_gather :: "nat list \<Rightarrow> 'a tensor list \<Rightarrow> error + 'a list" where
  "dist_all_gather entry_sizes ts =
     (if map numel ts = entry_sizes then Inr (concat (map elems ts)) else Inl RuntimeError)"

text \<open>
  \<open>reduce_scatter(output, input_list)\<close>: the output is the element-wise sum, over the
  ranks, of entry \<open>rank\<close> of each rank's list. Every list has one entry per rank, each
  with as many elements as the output.
\<close>

definition sum_rows :: "nat \<Rightarrow> ('a::comm_monoid_add) list list \<Rightarrow> 'a list" where
  "sum_rows m rows = foldr (map2 (+)) rows (replicate m 0)"

definition dist_reduce_scatter ::
  "nat \<Rightarrow> nat \<Rightarrow> ('a::comm_monoid_add) tensor list list \<Rightarrow> error + 'a list" where
  "dist_reduce_scatter rank out_numel input_lists =
     (if list_all (\<lambda>l. length l = length input_lists \<and>
                      list_all (\<lambda>t. numel t = out_numel) l) input_lists
      then Inr (sum_rows out_numel (map (\<lambda>l. elems (l ! rank)) input_lists))
      else Inl RuntimeError)"

text \<open>
  \<open>torch.chunk(t, chunks, dim=0)\<close> for \<open>chunks > 0\<close>: pieces of
  \<open>ceil(d0 / chunks)\<close> rows, the last one shorter when the rows do not divide; fewer
  than \<open>chunks\<close> pieces when they run out; \<open>chunks\<close> empty pieces when there is no
  row at all. A tensor without dimensions is refused.
\<close>

definition torch_chunk :: "'a tensor \<Rightarrow> nat \<Rightarrow> error + 'a tensor list" where
  "torch_chunk t chunks =
     (case shape t of
        [] \<Rightarrow> Inl RuntimeError
      | d0 # rest \<Rightarrow>
          (let split_size = (d0 + chunks - 1) div chunks; stride = prod_list rest in
           if split_size = 0
           then Inr (replicate chunks \<lparr> shape = 0 # rest, elems = [] \<rparr>)
           else Inr (map (\<lambda>c. \<lparr> shape = min split_size (d0 - c * split_size) # rest,
                                 elems = take (min split_size (d0 - c * split_size) * stride)
                                           (drop (c * split_size * stride) (elems t)) \<rparr>)
                       [0..<max ((d0 + split_size - 1) div split_size) 1])))"

text \<open>
  \<open>t.view(rows, -1)\<close>: the element count must be a multiple of \<open>rows\<close>, and not zero
  (the missing dimension would be ambiguous).
\<close>

definition view_rows :: "'a tensor \<Rightarrow> nat \<Rightarrow> error + 'a tensor" where
  "view_rows t rows =
     (if rows = 0 \<or> numel t = 0 \<or> numel t mod rows \<noteq> 0 then Inl RuntimeError
      else Inr \<lparr> shape = [rows, numel t div rows], elems = elems t \<rparr>)"

subsection \<open>\<open>AllToAll\<close>\<close>

text \<open>
  The runtime's capabilities: whether \<open>torch.distributed\<close> has
  \<open>all_to_all_single\<close>.
\<close>

record runtime =
  has_all_to_all_single :: bool

text \<open>
  Modelled from the spec: \<open>tutel_custom_kernel.external_all2all\<close> comes from
  \<open>jit_compiler\<close>, which is not among the sources. With flag \<open>-1\<close> it is the
  alternate backend of the same exchange; with flags \<open>0\<close> and \<open>1\<close> it takes part in
  the one-time negotiation and returns nothing that is used.
\<close>

definition external_all2all :: "nat \<Rightarrow> 'a tensor list \<Rightarrow> error + 'a tensor" where
  "external_all2all rank ts = dist_all_to_all_single rank ts"

text \<open>The block under \<open>if not hasattr(AllToAll, '__prepared__')\<close>.\<close>

definition prepare :: "runtime \<Rightarrow> group \<Rightarrow> process \<Rightarrow> process" where
  "prepare rt g st =
     (let st1 = st\<lparr> prepared := True \<rparr>;
          st2 = (if \<not> has_all_to_all_single rt \<and> (a2a_type st1 AND 1) = 1
                 then st1\<lparr> a2a_type := a2a_type st1 XOR 3 \<rparr> else st1)
      in if (a2a_type st2 AND 2) = 2 \<and> get_world_size g > 1
         then issue ((if get_world_rank g = 0 then [ExternalAll2All 0] else [])
                       @ [Broadcast, ExternalAll2All 1]) st2
         else st2)"

definition AllToAll_forward ::
  "runtime \<Rightarrow> process \<Rightarrow> group \<Rightarrow> 'a tensor \<Rightarrow> 'a tensor list
     \<Rightarrow> process \<times> (error + 'a tensor)" where
  "AllToAll_forward rt st g input peers =
     (let st1 = (if \<not> prepared st then prepare rt g st else st);
          world_size = get_world_size g
      in if world_size \<le> 1 \<or> a2a_type st1 = 0 then (st1, Inr input)
         else
           (let timed = ((a2a_type st1 AND 8) = 8);
                st2 = (if timed then issue [CudaSynchronize] st1 else st1);
                st3 = issue [if (a2a_type st1 AND 1) = 1 then AllToAllSingle
                             else ExternalAll2All (- 1)] st2;
                output = bind_err (contributions g input peers) (\<lambda>ts.
                           if (a2a_type st1 AND 1) = 1
                           then dist_all_to_all_single (nat (get_world_rank g)) ts
                           else external_all2all (nat (get_world_rank g)) ts)
            in case output of
                 Inl e \<Rightarrow> (st3, Inl e)
               | Inr out \<Rightarrow>
                   (if timed
                    then issue (CudaSynchronize #
                                 (if get_world_rank g = 0 then [LoggingInfo] else [])) st3
                    else st3,
                    Inr out)))"

text \<open>
  \<open>AllToAll.backward\<close> returns \<open>(None, AllToAll.apply(ctx.group, grad_output))\<close>;
  \<open>ctx.group\<close> is the group of the forward call.
\<close>

record a2a_ctx =
  a2a_group :: group
  a2a_world_size :: int

definition AllToAll_ctx :: "group \<Rightarrow> a2a_ctx" where
  "AllToAll_ctx g = \<lparr> a2a_group = g, a2a_world_size = get_world_size g \<rparr>"

definition AllToAll_backward ::
  "runtime \<Rightarrow> process \<Rightarrow> a2a_ctx \<Rightarrow> 'a tensor \<Rightarrow> 'a tensor list
     \<Rightarrow> process \<times> (error + (unit option \<times> 'a tensor))" where
  "AllToAll_backward rt st ctx grad_output peers =
     (case AllToAll_forward rt st (a2a_group ctx) grad_output peers of
        (st', Inl e) \<Rightarrow> (st', Inl e)
      | (st', Inr out) \<Rightarrow> (st', Inr (None, out)))"

subsection \<open>\<open>PreAllreduceSum\<close> (Expand) and \<open>PostAllreduceSum\<close> (Contract)\<close>

text \<open>
  \<open>torch.empty(shape)\<close> and \<open>torch.empty_like\<close>: uninitialised; every element is
  overwritten by the collective that follows. The model fills with zeros.
\<close>

definition empty_tensor :: "nat list \<Rightarrow> ('a::zero) tensor" where
  "empty_tensor s = \<lparr> shape = s, elems = replicate (prod_list s) 0 \<rparr>"

text \<open>
  The context saved by \<open>forward\<close>: \<open>input_shape\<close> is assigned only past the early
  return.
\<close>

record allreduce_ctx =
  ctx_group :: group
  ctx_num_nodes :: int
  ctx_input_shape :: "nat list option"

definition allreduce_ctx_of :: "group \<Rightarrow> 'a tensor \<Rightarrow> allreduce_ctx" where
  "allreduce_ctx_of g input =
     \<lparr> ctx_group = g, ctx_num_nodes = get_world_size g,
       ctx_input_shape = (if get_world_size g \<le> 1 then None else Some (shape input)) \<rparr>"

text \<open>
  \<open>PreAllreduceSum.forward\<close>. The entries of \<open>tensor_list\<close> are the rows of
  \<open>output\<close> (a chunk along the leading dimension of a contiguous tensor is contiguous, so
  \<open>contiguous()\<close> returns the view itself), and \<open>all_gather\<close> fills \<open>output\<close>
  through them. \<open>input.shape[0]\<close> raises \<open>IndexError\<close> on a tensor without
  dimensions, after the gather.
\<close>

definition PreAllreduceSum_forward ::
  "process \<Rightarrow> group \<Rightarrow> ('a::comm_monoid_add) tensor \<Rightarrow> 'a tensor list
     \<Rightarrow> process \<times> (error + 'a tensor)" where
  "PreAllreduceSum_forward st g input peers =
     (let num_nodes = get_world_size g in
      if num_nodes \<le> 1 then (st, Inr input)
      else
        (let output = empty_tensor [nat num_nodes, numel input] :: 'a tensor in
         case torch_chunk output (nat num_nodes) of
           Inl e \<Rightarrow> (st, Inl e)
         | Inr tensor_list \<Rightarrow>
             (issue [AllGather] st,
              bind_err (contributions g input peers) (\<lambda>ts.
              bind_err (dist_all_gather (map numel tensor_list) ts) (\<lambda>filled.
                case shape input of
                  [] \<Rightarrow> Inl IndexError
                | d0 # rest \<Rightarrow>
                    Inr \<lparr> shape = (d0 * nat num_nodes) # rest, elems = filled \<rparr>)))))"

text \<open>
  \<open>PreAllreduceSum.backward\<close>. For \<open>reduce_scatter\<close> the argument \<open>peers\<close>
  lists each rank's \<open>input_list\<close>.
\<close>

definition PreAllreduceSum_backward ::
  "process \<Rightarrow> allreduce_ctx \<Rightarrow> ('a::comm_monoid_add) tensor \<Rightarrow> 'a tensor list list
     \<Rightarrow> process \<times> (error + (unit option \<times> 'a tensor))" where
  "PreAllreduceSum_backward st ctx doutput peers =
     (if get_world_size (ctx_group ctx) \<le> 1 then (st, Inr (None, doutput))
      else
        (case ctx_input_shape ctx of
           None \<Rightarrow> (st, Inl AttributeError)
         | Some input_shape \<Rightarrow>
             (let dinput = empty_tensor input_shape :: 'a tensor in
              case bind_err (view_rows doutput (nat (ctx_num_nodes ctx)))
                     (\<lambda>v. torch_chunk v (nat (ctx_num_nodes ctx))) of
                Inl e \<Rightarrow> (st, Inl e)
              | Inr chunks \<Rightarrow>
                  (issue [ReduceScatter] st,
                   bind_err (contributions (ctx_group ctx) chunks peers) (\<lambda>input_lists.
                   bind_err (dist_reduce_scatter (nat (get_world_rank (ctx_group ctx)))
                               (numel dinput) input_lists) (\<lambda>summed.
                     Inr (None, \<lparr> shape = input_shape, elems = summed \<rparr>)))))))"

text \<open>\<open>PostAllreduceSum.forward\<close>, with its assertion on the number of chunks.\<close>

definition PostAllreduceSum_forward ::
  "process \<Rightarrow> group \<Rightarrow> ('a::comm_monoid_add) tensor \<Rightarrow> 'a tensor list list
     \<Rightarrow> process \<times> (error + 'a tensor)" where
  "PostAllreduceSum_forward st g input peers =
     (let num_nodes = get_world_size g in
      if num_nodes \<le> 1 then (st, Inr input)
      else
        (case torch_chunk input (nat num_nodes) of
           Inl e \<Rightarrow> (st, Inl e)
         | Inr chunks \<Rightarrow>
             if int (length chunks) \<noteq> num_nodes then (st, Inl AssertionError)
             else
               (let output = empty_tensor (shape (chunks ! 0)) :: 'a tensor in
                (issue [ReduceScatter] st,
                 bind_err (contributions g chunks peers) (\<lambda>input_lists.
                 bind_err (dist_reduce_scatter (nat (get_world_rank g)) (numel output)
                             input_lists) (\<lambda>summed.
                   Inr \<lparr> shape = shape output, elems = summed \<rparr>))))))"

text \<open>
  \<open>PostAllreduceSum.backward\<close>: the entries of \<open>tensor_list\<close> are the chunks of
  \<open>dinput\<close> along its leading dimension, and \<open>all_gather\<close> fills \<open>dinput\<close>
  through them.
\<close>

definition PostAllreduceSum_backward ::
  "process \<Rightarrow> allreduce_ctx \<Rightarrow> ('a::comm_monoid_add) tensor \<Rightarrow> 'a tensor list
     \<Rightarrow> process \<times> (error + (unit option \<times> 'a tensor))" where
  "PostAllreduceSum_backward st ctx doutput peers =
     (if ctx_num_nodes ctx \<le> 1 then (st, Inr (None, doutput))
      else
        (case ctx_input_shape ctx of
           None \<Rightarrow> (st, Inl AttributeError)
         | Some input_shape \<Rightarrow>
             (let dinput = empty_tensor input_shape :: 'a tensor in
              case torch_chunk dinput (nat (ctx_num_nodes ctx)) of
                Inl e \<Rightarrow> (st, Inl e)
              | Inr tensor_list \<Rightarrow>
                  (issue [AllGather] st,
                   bind_err (contributions (ctx_group ctx) doutput peers) (\<lambda>ts.
                   bind_err (dist_all_gather (map numel tensor_list) ts) (\<lambda>filled.
                     Inr (None, \<lparr> shape = input_shape, elems = filled \<rparr>)))))))"

subsection \<open>Small scenarios\<close>

text \<open>A group of one process, and a process that has not yet called \<open>AllToAll\<close>.\<close>

definition lone_group :: group where
  "lone_group = \<lparr> dist_world_size = Some 1, dist_rank = Some 0 \<rparr>"

definition fresh_process :: process where
  "fresh_process = \<lparr> prepared = False, a2a_type = 1, trace = [] \<rparr>"

text \<open>A group of two processes, seen from rank 0.\<close>

definition pair_group :: group where
  "pair_group = \<lparr> dist_world_size = Some 2, dist_rank = Some 0 \<rparr>"

subsection \<open>What the spec says of Expand\<close>

text \<open>
  The spec's wording of the Expand forward: the workers' values stacked along a new
  leading axis of size \<open>P\<close>.
\<close>

definition expand_stacked :: "'a tensor list \<Rightarrow> 'a tensor" where
  "expand_stacked ts = \<lparr> shape = length ts # shape (hd ts), elems = concat (map elems ts) \<rparr>"

subsection \<open>The lists handed to a reduce-scatter\<close>

text \<open>
  A rank's \<open>input_list\<close> for a tensor \<open>t\<close> cut into \<open>p\<close> shards of \<open>m\<close>
  elements: entry \<open>c\<close> holds shard \<open>c\<close> of \<open>t\<close>, whatever its shape.
\<close>

definition shards_of :: "nat \<Rightarrow> nat \<Rightarrow> 'a tensor list \<Rightarrow> 'a tensor \<Rightarrow> bool" where
  "shards_of p m l t \<longleftrightarrow>
     length l = p \<and> (\<forall>c<p. numel (l ! c) = m \<and> elems (l ! c) = part m c (elems t))"



subsection \<open>The group seen from each rank; inner products\<close>

text \<open>A group of \<open>p\<close> processes as rank \<open>r\<close> sees it.\<close>

definition rank_view :: "nat \<Rightarrow> nat \<Rightarrow> group" where
  "rank_view p r = \<lparr> dist_world_size = Some (int p), dist_rank = Some (int r) \<rparr>"

text \<open>
  The elements of the tensor a forward call returned, and of the tensor gradient a
  backward call returned (nothing when the call raised).
\<close>

definition returned_elems :: "process \<times> (error + 'a tensor) \<Rightarrow> 'a list" where
  "returned_elems res = (case snd res of Inr t \<Rightarrow> elems t | Inl e \<Rightarrow> [])"

definition returned_grad_elems ::
  "process \<times> (error + (unit option \<times> 'a tensor)) \<Rightarrow> 'a list" where
  "returned_grad_elems res = (case snd res of Inr (none, t) \<Rightarrow> elems t | Inl e \<Rightarrow> [])"

text \<open>
  The value of \<open>AllToAll.a2a_type\<close> that decides a call of \<open>AllToAll.forward\<close>:
  the stored one, after the one-time fallback if the call is the first.
\<close>

definition exchange_mode :: "runtime \<Rightarrow> process \<Rightarrow> int" where
  "exchange_mode rt st =
     (if prepared st then a2a_type st
      else if \<not> has_all_to_all_single rt \<and> (a2a_type st AND 1) = 1
           then a2a_type st XOR 3 else a2a_type st)"

text \<open>
  A process past the one-time negotiation with the standard backend, and two workers'
  inputs and gradients of two elements each.
\<close>

definition ready_process :: process where
  "ready_process = \<lparr> prepared = True, a2a_type = 1, trace = [] \<rparr>"

definition pair_inputs :: "int tensor list" where
  "pair_inputs = [\<lparr> shape = [2], elems = [1, 2] \<rparr>, \<lparr> shape = [2], elems = [3, 4] \<rparr>]"

definition pair_grads :: "int tensor list" where
  "pair_grads = [\<lparr> shape = [2], elems = [5, 6] \<rparr>, \<lparr> shape = [2], elems = [7, 8] \<rparr>]"

section \<open>Properties of the dispatcher\<close>

subsection \<open>Rows, sums and fallible steps\<close>

lemma bind_err_Inr_iff: "bind_err m f = Inr y \<longleftrightarrow> (\<exists>x. m = Inr x \<and> f x = Inr y)"
  by (cases m) auto

lemma add_rows_nth: "j < length u \<Longrightarrow> j < length v \<Longrightarrow> add_rows u v ! j = u ! j + v ! j"
  by (simp add: add_rows_def)

lemma length_add_rows: "length (add_rows u v) = min (length u) (length v)"
  by (simp add: add_rows_def)

lemma length_scale_row: "length (scale_row g v) = length v"
  by (simp add: scale_row_def)

lemma scale_row_nth: "j < length v \<Longrightarrow> scale_row g v ! j = g * v ! j"
  by (simp add: scale_row_def)

lemma has_shape_nth: "has_shape n w m \<Longrightarrow> t < n \<Longrightarrow> length (m ! t) = w"
  by (simp add: has_shape_def list_all_length)

lemma has_shape_length: "has_shape n w m \<Longrightarrow> length m = n"
  by (simp add: has_shape_def)

lemma torch_zeros_ok:
  "0 \<le> rows \<Longrightarrow> 0 \<le> cols \<Longrightarrow>
   torch_zeros rows cols = Inr (replicate (nat rows) (replicate (nat cols) 0))"
  by (simp add: torch_zeros_def)

subsection \<open>The scatter kernel\<close>

lemma scatter_token_ok:
  assumes "s < cap \<longrightarrow> 0 \<le> slot_row cap e s \<and> slot_row cap e s < int (length buf)"
  shows "\<exists>b. scatter_token cap g e s x buf = Inr b \<and> length b = length buf \<and>
           (\<forall>r<length buf. b ! r =
              (if s < cap \<and> slot_row cap e s = int r
               then add_rows (buf ! r) (scale_row g x) else buf ! r))"
  using assms by (auto simp: scatter_token_def Let_def nth_list_update)

lemma scatter_loop_char:
  assumes slots: "\<forall>t<n. loc ! t < cap \<longrightarrow>
              0 \<le> slot_row cap (idx ! t) (loc ! t) \<and>
              slot_row cap (idx ! t) (loc ! t) < int (length buf)"
    and bw: "\<forall>r<length buf. length (buf ! r) = w"
    and iw: "\<forall>t<n. length (inp ! t) = w"
  shows "\<exists>b. scatter_loop cap gs idx loc inp buf n = Inr b \<and> length b = length buf \<and>
           (\<forall>r<length buf. length (b ! r) = w \<and>
              (\<forall>j<w. b ! r ! j = buf ! r ! j +
                 (\<Sum>t<n. if loc ! t < cap \<and> slot_row cap (idx ! t) (loc ! t) = int r
                          then gs ! t * inp ! t ! j else 0)))"
  using slots iw
proof (induction n)
  case 0
  then show ?case using bw by simp
next
  case (Suc n)
  from Suc obtain b where b: "scatter_loop cap gs idx loc inp buf n = Inr b" "length b = length buf"
    and bch: "\<forall>r<length buf. length (b ! r) = w \<and>
              (\<forall>j<w. b ! r ! j = buf ! r ! j +
                 (\<Sum>t<n. if loc ! t < cap \<and> slot_row cap (idx ! t) (loc ! t) = int r
                          then gs ! t * inp ! t ! j else 0))"
    by auto
  have "loc ! n < cap \<longrightarrow> 0 \<le> slot_row cap (idx ! n) (loc ! n) \<and>
          slot_row cap (idx ! n) (loc ! n) < int (length b)"
    using Suc.prems(1) b(2) by simp
  from scatter_token_ok[OF this, of "gs ! n" "inp ! n"]
  obtain b' where b': "scatter_token cap (gs ! n) (idx ! n) (loc ! n) (inp ! n) b = Inr b'"
     "length b' = length b"
     "\<forall>r<length b. b' ! r =
              (if loc ! n < cap \<and> slot_row cap (idx ! n) (loc ! n) = int r
               then add_rows (b ! r) (scale_row (gs ! n) (inp ! n)) else b ! r)"
    by blast
  have iwn: "length (inp ! n) = w" using Suc.prems(2) by simp
  have "\<forall>r<length buf. length (b' ! r) = w \<and>
              (\<forall>j<w. b' ! r ! j = buf ! r ! j +
                 (\<Sum>t<Suc n. if loc ! t < cap \<and> slot_row cap (idx ! t) (loc ! t) = int r
                          then gs ! t * inp ! t ! j else 0))"
  proof (intro allI impI)
    fix r assume r: "r < length buf"
    show "length (b' ! r) = w \<and>
              (\<forall>j<w. b' ! r ! j = buf ! r ! j +
                 (\<Sum>t<Suc n. if loc ! t < cap \<and> slot_row cap (idx ! t) (loc ! t) = int r
                          then gs ! t * inp ! t ! j else 0))"
      using b'(3) r b(2) bch iwn
      by (auto simp: length_add_rows length_scale_row add_rows_nth scale_row_nth)
  qed
  then show ?case using b b' by simp
qed

subsection \<open>What \<open>update\<close> installs\<close>

lemma init_pool_built: "pool_built (init_dispatcher h e c m dt)"
  by (simp add: pool_built_def init_dispatcher_def Let_def)

lemma init_fresh:
  "expected_sample_size (init_dispatcher h e c m dt :: 'a::comm_ring_1 dispatcher) = - 1"
  by (simp add: init_dispatcher_def Let_def)

lemma update_keeps:
  assumes "update d idx loc gts co = Inr d'"
  shows "num_global_experts d' = num_global_experts d \<and> aligned_dim d' = aligned_dim d \<and>
         dtype d' = dtype d \<and> model_dim d' = model_dim d \<and> original_dtype d' = original_dtype d \<and>
         indices d' = idx \<and> locations d' = loc \<and> gates d' = gts"
  using assms
  by (auto simp: update_def Let_def split: list.splits option.splits if_splits)

lemma update_pool_built:
  assumes "pool_built d" "update d idx loc gts co = Inr d'"
  shows "pool_built d'"
  using assms
  by (auto simp: update_def Let_def pool_built_def split: list.splits option.splits if_splits)

lemma update_kernels_current:
  assumes "pool_built d" "kernels_current d \<or> expected_sample_size d < 0"
    "update d idx loc gts co = Inr d'"
  shows "kernels_current d'"
  using assms
  by (auto simp: update_def Let_def pool_built_def kernels_current_def
           split: list.splits option.splits if_splits)

lemma installed_inv: "installed d \<Longrightarrow> pool_built d \<and> kernels_current d"
proof (induction rule: installed.induct)
  case (installed_first is_hip e c m dt idx loc gts cap_arg d)
  then show ?case
    using update_pool_built[OF init_pool_built] update_kernels_current[OF init_pool_built]
    by (metis init_fresh neg_less_0_iff_less zero_less_one)
next
  case (installed_next d idx loc gts cap_arg d')
  then show ?case using update_pool_built update_kernels_current by blast
qed


subsection \<open>Slots of a well-formed routing assignment\<close>


lemma slot_in_range:
  assumes "0 \<le> e" "e < experts" "0 \<le> s" "s < cap"
  shows "0 \<le> slot_row cap e s \<and> slot_row cap e s < experts * cap"
proof -
  have "e + 1 \<le> experts" using assms by simp
  then have "(e + 1) * cap \<le> experts * cap"
    using assms by (intro mult_right_mono) auto
  then have "e * cap + cap \<le> experts * cap" by (simp add: algebra_simps)
  moreover have "0 \<le> e * cap" using assms by simp
  ultimately show ?thesis using assms by (simp add: slot_row_def)
qed

lemma routing_ok_choice:
  assumes "routing_ok d" "i < length (indices d)"
  shows "choice_ok (num_global_experts d) (nat (expected_sample_size d))
           (indices d ! i) (locations d ! i) (gates d ! i)"
  using assms by (auto simp: routing_ok_def list_all_length)

lemma choice_ok_slots:
  assumes "choice_ok experts n idx loc g" "t < n" "loc ! t < cap"
  shows "0 \<le> slot_row cap (idx ! t) (loc ! t) \<and> slot_row cap (idx ! t) (loc ! t) < experts * cap"
  using assms by (intro slot_in_range) (auto simp: choice_ok_def list_all_length)


subsection \<open>The encoder\<close>


lemma forward_choice:
  assumes ok: "choice_ok experts n idx loc g"
    and x: "has_shape n w (x :: ('a::comm_ring_1) matrix)"
    and len: "int (length buf) = experts * cap"
    and bw: "\<forall>r<length buf. length (buf ! r) = w"
  shows "\<exists>b. create_forward (int n) experts cap hid dt (replicate n 1) idx loc x buf = Inr b \<and>
           length b = length buf \<and>
           (\<forall>r<length buf. length (b ! r) = w \<and>
              (\<forall>j<w. b ! r ! j = buf ! r ! j + (\<Sum>t<n. dispatch_term cap idx loc x r j t)))"
proof -
  have cover: "args_cover n (replicate n (1::'a)) idx loc x"
    using ok x by (simp add: args_cover_def choice_ok_def has_shape_def)
  have slots: "\<forall>t<n. loc ! t < cap \<longrightarrow>
              0 \<le> slot_row cap (idx ! t) (loc ! t) \<and>
              slot_row cap (idx ! t) (loc ! t) < int (length buf)"
    using choice_ok_slots[OF ok] len by simp
  have iw: "\<forall>t<n. length (x ! t) = w"
    using x by (simp add: has_shape_nth)
  from scatter_loop_char[OF slots bw iw, of "replicate n 1"]
  obtain b where b: "scatter_loop cap (replicate n 1) idx loc x buf n = Inr b"
      "length b = length buf"
      "\<forall>r<length buf. length (b ! r) = w \<and>
              (\<forall>j<w. b ! r ! j = buf ! r ! j +
                 (\<Sum>t<n. if loc ! t < cap \<and> slot_row cap (idx ! t) (loc ! t) = int r
                          then replicate n 1 ! t * x ! t ! j else 0))"
    by blast
  have eq: "\<And>r j. (\<Sum>t<n. if loc ! t < cap \<and> slot_row cap (idx ! t) (loc ! t) = int r
                          then replicate n (1::'a) ! t * x ! t ! j else 0)
            = (\<Sum>t<n. dispatch_term cap idx loc x r j t)"
    by (rule sum.cong) (auto simp: dispatch_term_def)
  show ?thesis
    using b cover by (simp add: create_forward_def eq)
qed

lemma encoder_loop_char:
  assumes rok: "routing_ok d"
    and k: "k = build_kernels (expected_sample_size d) (num_global_experts d) (capacity d) hid dt"
    and n: "expected_sample_size d = int n"
    and x: "has_shape n w x"
    and len: "int (length buf) = num_global_experts d * capacity d"
    and bw: "\<forall>r<length buf. length (buf ! r) = w"
    and i: "i \<le> length (indices d)"
  shows "\<exists>b. encoder_loop k d x buf i = Inr b \<and> length b = length buf \<and>
           (\<forall>r<length buf. length (b ! r) = w \<and>
              (\<forall>j<w. b ! r ! j = buf ! r ! j +
                 (\<Sum>c<i. \<Sum>t<n. dispatch_term (capacity d) (indices d ! c) (locations d ! c) x r j t)))"
  using i
proof (induction i)
  case 0
  then show ?case using bw by simp
next
  case (Suc i)
  then obtain b where b: "encoder_loop k d x buf i = Inr b" "length b = length buf"
    and bch: "\<forall>r<length buf. length (b ! r) = w \<and>
              (\<forall>j<w. b ! r ! j = buf ! r ! j +
                 (\<Sum>c<i. \<Sum>t<n. dispatch_term (capacity d) (indices d ! c) (locations d ! c) x r j t))"
    by auto
  have ilt: "i < length (indices d)" using Suc.prems by simp
  have ok: "choice_ok (num_global_experts d) n (indices d ! i) (locations d ! i) (gates d ! i)"
    using routing_ok_choice[OF rok ilt] n by simp
  have len': "int (length b) = num_global_experts d * capacity d" using len b(2) by simp
  have bw': "\<forall>r<length b. length (b ! r) = w" using bch b(2) by simp
  from forward_choice[OF ok x len' bw', of hid dt]
  obtain b' where b': "create_forward (int n) (num_global_experts d) (capacity d) hid dt
          (replicate n 1) (indices d ! i) (locations d ! i) x b = Inr b'"
      "length b' = length b"
      "\<forall>r<length b. length (b' ! r) = w \<and>
              (\<forall>j<w. b' ! r ! j = b ! r ! j +
                 (\<Sum>t<n. dispatch_term (capacity d) (indices d ! i) (locations d ! i) x r j t))"
    by blast
  have iloc: "i < length (locations d)" using rok ilt by (simp add: routing_ok_def)
  have step: "encoder_loop k d x buf (Suc i) = Inr b'"
    using b(1) b'(1) iloc by (simp add: k n build_kernels_def)
  have "\<forall>r<length buf. length (b' ! r) = w \<and>
              (\<forall>j<w. b' ! r ! j = buf ! r ! j +
                 (\<Sum>c<Suc i. \<Sum>t<n. dispatch_term (capacity d) (indices d ! c) (locations d ! c) x r j t))"
    using b'(3) bch b(2) by (simp add: add.assoc)
  then show ?case using step b'(2) b(2) by simp
qed


subsection \<open>\<open>encode\<close> scatters every routing choice\<close>


lemmas dispatcher_eval =
  update_def capacity_or_def init_dispatcher_def build_kernels_def encode_def GatingEncoder_forward_def
  torch_zeros_def torch_empty_def create_forward_def create_backward_data_def args_cover_def
  scatter_token_def gather_token_def slot_row_def add_rows_def add_matrix_def scale_row_def Let_def
  encode_first_choice_def decode_def GatingDecoder_forward_def decoder_single_output_def

lemma top2_update_ok: "top2_update = Inr top2_state"
  unfolding top2_state_def top2_update_def by (simp add: dispatcher_eval)

lemma top2_installed: "installed top2_state"
  using top2_update_ok unfolding top2_update_def by (rule installed_first)

lemma top2_fields:
  "indices top2_state = [[0], [1]]" "locations top2_state = [[0], [0]]"
  "gates top2_state = [[1], [1]]" "capacity top2_state = 1" "num_global_experts top2_state = 2"
  "model_dim top2_state = 1" "expected_sample_size top2_state = 1"
  "installed_kernels top2_state = Some (build_kernels 1 2 1 1 float32)"
  unfolding top2_state_def top2_update_def by (simp_all add: dispatcher_eval)

lemma top2_encode: "encode top2_state [[5]] = Inr [[5], [5]]"
  by (simp add: encode_def GatingEncoder_forward_def top2_fields torch_zeros_def
        build_kernels_def create_forward_def args_cover_def scatter_token_def slot_row_def
        add_rows_def scale_row_def eval_nat_numeral)

lemma top2_first: "encode_first_choice top2_state [[5]] = Inr [[5], [0]]"
  by (simp add: encode_first_choice_def top2_fields torch_zeros_def
        scatter_token_def slot_row_def add_rows_def scale_row_def eval_nat_numeral)

text \<open>
  The scenario against claim C1 as the spec states it (\<open>encode\<close> uses the first
  routing choice only): the code's buffer holds the token in the slot of the second
  choice too, where the first-choice scatter leaves a zero row.
\<close>

theorem encode_first_choice_only_counterexample:
  "bind_err top2_update (\<lambda>d. encode d [[5]]) = Inr [[5], [5]] \<and>
   bind_err top2_update (\<lambda>d. encode_first_choice d [[5]]) = Inr [[5], [0]]"
  by (simp add: top2_update_ok top2_encode top2_first)

text \<open>
  Claim C1, amended. For every dispatcher state installed by \<open>update\<close> whose routing
  assignment is well formed, and every input of shape \<open>[sample_size, model_dim]\<close>,
  \<open>encode\<close> returns a buffer of shape \<open>[num_global_experts * capacity, model_dim]\<close>
  in which every element is the sum, over all routing choices and all tokens, of the
  token's feature when that choice places the token in that row with a location below
  the capacity. With a single routing choice this is the scatter of the first choice.
\<close>

theorem encode_all_choices:
  assumes inst: "installed d"
    and rok: "routing_ok d"
    and x: "has_shape (nat (expected_sample_size d)) (nat (model_dim d)) x"
  shows "\<exists>b. encode d x = Inr b \<and>
           has_shape (nat (num_global_experts d * capacity d)) (nat (model_dim d)) b \<and>
           (\<forall>r<nat (num_global_experts d * capacity d). \<forall>j<nat (model_dim d).
              b ! r ! j =
                (\<Sum>c<length (indices d). \<Sum>t<nat (expected_sample_size d).
                   dispatch_term (capacity d) (indices d ! c) (locations d ! c) x r j t))"
proof -
  let ?E = "num_global_experts d" and ?cap = "capacity d" and ?n = "nat (expected_sample_size d)"
  let ?w = "nat (model_dim d)"
  let ?k = "build_kernels (expected_sample_size d) ?E ?cap (aligned_dim d) (dtype d)"
  let ?buf = "replicate (nat (?E * ?cap)) (replicate ?w (0::'a))"
  have cur: "kernels_current d" using installed_inv[OF inst] by simp
  then have ik: "installed_kernels d = Some ?k" and n: "expected_sample_size d = int ?n"
    by (simp_all add: kernels_current_def)
  have nonneg: "0 \<le> ?E * ?cap" "0 \<le> model_dim d"
    using rok by (simp_all add: routing_ok_def)
  have z: "torch_zeros (?E * ?cap) (model_dim d) = Inr ?buf"
    using nonneg by (simp add: torch_zeros_ok)
  have len: "int (length ?buf) = ?E * ?cap" using nonneg by simp
  have bw: "\<forall>r<length ?buf. length (?buf ! r) = ?w" by simp
  from encoder_loop_char[OF rok refl n x len bw le_refl, of "aligned_dim d" "dtype d"]
  obtain b where b: "encoder_loop ?k d x ?buf (length (indices d)) = Inr b"
     "length b = length ?buf"
     "\<forall>r<length ?buf. length (b ! r) = ?w \<and>
              (\<forall>j< ?w. b ! r ! j = ?buf ! r ! j +
                 (\<Sum>c<length (indices d). \<Sum>t< ?n.
                    dispatch_term ?cap (indices d ! c) (locations d ! c) x r j t))"
    by blast
  have enc: "encode d x = Inr b"
    using b(1) by (simp add: encode_def GatingEncoder_forward_def z ik)
  have shape: "has_shape (nat (?E * ?cap)) ?w b"
    using b(2,3) by (simp add: has_shape_def list_all_length)
  have vals: "\<forall>r<nat (?E * ?cap). \<forall>j< ?w. b ! r ! j =
                 (\<Sum>c<length (indices d). \<Sum>t< ?n.
                    dispatch_term ?cap (indices d ! c) (locations d ! c) x r j t)"
    using b(3) by simp
  show ?thesis using enc shape vals by blast
qed

text \<open>The theorem at the two-choice scenario: row 1 holds the token, from the second choice.\<close>

theorem encode_all_choices_witness:
  "installed top2_state \<and> routing_ok top2_state \<and>
   has_shape (nat (expected_sample_size top2_state)) (nat (model_dim top2_state)) [[5::int]] \<and>
   encode top2_state [[5]] = Inr [[5], [5]] \<and>
   (\<Sum>c<length (indices top2_state). \<Sum>t<nat (expected_sample_size top2_state).
       dispatch_term (capacity top2_state) (indices top2_state ! c) (locations top2_state ! c)
         [[5]] 1 0 t) = (5::int)"
proof -
  have r: "routing_ok top2_state"
    by (simp add: routing_ok_def choice_ok_def top2_fields)
  have s: "has_shape (nat (expected_sample_size top2_state)) (nat (model_dim top2_state)) [[5::int]]"
    by (simp add: has_shape_def top2_fields)
  from encode_all_choices[OF top2_installed r s]
  obtain b where "encode top2_state [[5]] = Inr b"
    "\<forall>r<nat (num_global_experts top2_state * capacity top2_state). \<forall>j<nat (model_dim top2_state).
              b ! r ! j =
                (\<Sum>c<length (indices top2_state). \<Sum>t<nat (expected_sample_size top2_state).
                   dispatch_term (capacity top2_state) (indices top2_state ! c)
                     (locations top2_state ! c) [[5::int]] r j t)"
    by blast
  then have "(\<Sum>c<length (indices top2_state). \<Sum>t<nat (expected_sample_size top2_state).
       dispatch_term (capacity top2_state) (indices top2_state ! c) (locations top2_state ! c)
         [[5::int]] 1 0 t) = [[5], [5]] ! 1 ! 0"
    using top2_encode by (auto simp add: top2_fields)
  then show ?thesis using top2_installed r s top2_encode by simp
qed


section \<open>Properties of the communication operators\<close>

subsection \<open>A group of one; the gradient of the exchange\<close>


lemma prepare_single:
  "get_world_size g \<le> 1 \<Longrightarrow> trace (prepare rt g st) = trace st"
  by (simp add: prepare_def Let_def)

text \<open>
  Claim C8. When the group's world size is 1, each of the three communication operators
  (\<open>AllToAll\<close>, \<open>PreAllreduceSum\<close>, \<open>PostAllreduceSum\<close>) returns its input
  unchanged and issues no call: the trace of the process stays as it was.
\<close>

theorem world_size_one_identity:
  assumes "get_world_size g = 1"
  shows "snd (AllToAll_forward rt st g input peers) = Inr input \<and>
         trace (fst (AllToAll_forward rt st g input peers)) = trace st \<and>
         PreAllreduceSum_forward st g input2 peers2 = (st, Inr input2) \<and>
         PostAllreduceSum_forward st g input2 peers3 = (st, Inr input2)"
  using assms
  by (simp add: AllToAll_forward_def PreAllreduceSum_forward_def PostAllreduceSum_forward_def
        Let_def prepare_single)

text \<open>The theorem at a group of one process and a vector of two elements.\<close>

theorem world_size_one_identity_witness:
  "get_world_size lone_group = 1 \<and>
   snd (AllToAll_forward \<lparr> has_all_to_all_single = True \<rparr> fresh_process lone_group
          \<lparr> shape = [2], elems = [3, 4::int] \<rparr> []) = Inr \<lparr> shape = [2], elems = [3, 4] \<rparr> \<and>
   trace (fst (AllToAll_forward \<lparr> has_all_to_all_single = True \<rparr> fresh_process lone_group
          \<lparr> shape = [2], elems = [3, 4::int] \<rparr> [])) = [] \<and>
   PreAllreduceSum_forward fresh_process lone_group \<lparr> shape = [2], elems = [3, 4::int] \<rparr> []
     = (fresh_process, Inr \<lparr> shape = [2], elems = [3, 4] \<rparr>) \<and>
   PostAllreduceSum_forward fresh_process lone_group \<lparr> shape = [2], elems = [3, 4::int] \<rparr> []
     = (fresh_process, Inr \<lparr> shape = [2], elems = [3, 4] \<rparr>)"
proof -
  have g: "get_world_size lone_group = 1"
    by (simp add: get_world_size_def lone_group_def)
  show ?thesis
    using g world_size_one_identity[OF g, of "\<lparr> has_all_to_all_single = True \<rparr>" fresh_process
        "\<lparr> shape = [2], elems = [3, 4::int] \<rparr>" "[]" "\<lparr> shape = [2], elems = [3, 4::int] \<rparr>" "[]" "[]"]
    by (simp add: fresh_process_def)
qed






subsection \<open>The assertion of the Contract forward\<close>


lemma ceil_div_small:
  assumes "0 < d0" "d0 < p"
  shows "(d0 + p - 1) div p = (1::nat)"
  by (rule div_nat_eqI) (use assms in auto)

lemma torch_chunk_total:
  assumes "shape t = d0 # rest"
  shows "\<exists>cs. torch_chunk t p = Inr cs"
  using assms by (simp add: torch_chunk_def Let_def)

lemma torch_chunk_small:
  assumes "shape t = d0 # rest" "0 < d0" "d0 < p"
  shows "\<exists>cs. torch_chunk t p = Inr cs \<and> length cs = d0"
  using assms ceil_div_small[OF assms(2,3)]
  by (simp add: torch_chunk_def Let_def)

lemma torch_chunk_no_rows:
  assumes "shape t = 0 # rest" "0 < p"
  shows "torch_chunk t p = Inr (replicate p \<lparr> shape = 0 # rest, elems = [] \<rparr>)"
  using assms by (simp add: torch_chunk_def Let_def)

text \<open>
  Claim C10, amended. For every group of \<open>P > 1\<close> workers and every input with a leading
  dimension, the Contract forward fails with an assertion error, and issues nothing,
  whenever \<open>torch.chunk\<close> does not yield exactly \<open>P\<close> chunks; this is the case in
  particular whenever the leading dimension is positive and smaller than \<open>P\<close>. When the
  split yields exactly \<open>P\<close> chunks the reduce-scatter is issued, and nothing else.
\<close>

theorem contract_asserts_chunk_count:
  assumes ws: "get_world_size g = int p" and p: "1 < p"
    and sh: "shape input = d0 # rest"
  shows "\<exists>chunks. torch_chunk input p = Inr chunks \<and>
           (if length chunks = p
            then trace (fst (PostAllreduceSum_forward st g input peers)) = trace st @ [ReduceScatter]
            else PostAllreduceSum_forward st g input peers = (st, Inl AssertionError)) \<and>
           (if 0 < d0 \<and> d0 < p then length chunks \<noteq> p else True)"
proof -
  obtain chunks where c: "torch_chunk input p = Inr chunks"
    using torch_chunk_total[OF sh] by blast
  have small: "0 < d0 \<and> d0 < p \<Longrightarrow> length chunks \<noteq> p"
    using torch_chunk_small[OF sh, of p] c by auto
  have np: "\<not> p \<le> Suc 0" using p by simp
  have a: "length chunks \<noteq> p \<Longrightarrow>
             PostAllreduceSum_forward st g input peers = (st, Inl AssertionError)"
    using np by (simp add: PostAllreduceSum_forward_def Let_def ws c)
  have b: "length chunks = p \<Longrightarrow>
             trace (fst (PostAllreduceSum_forward st g input peers)) = trace st @ [ReduceScatter]"
    using np by (simp add: PostAllreduceSum_forward_def Let_def ws c issue_def)
  show ?thesis
    using c a b small by auto
qed



lemma pair_group_size: "get_world_size pair_group = int 2" "get_world_rank pair_group = 0"
  by (simp_all add: get_world_size_def get_world_rank_def pair_group_def)

text \<open>
  The scenario against claim C10 as stated: a leading dimension of 0 is smaller than
  \<open>P = 2\<close>, yet \<open>torch.chunk\<close> yields two empty chunks, the assertion holds and the
  reduce-scatter is issued.
\<close>

theorem contract_no_rows_counterexample:
  "get_world_size pair_group = 2 \<and>
   shape \<lparr> shape = [0], elems = [] :: int list \<rparr> = [0] \<and>
   PostAllreduceSum_forward fresh_process pair_group \<lparr> shape = [0], elems = [] :: int list \<rparr>
       [replicate 2 \<lparr> shape = [0], elems = [] \<rparr>, replicate 2 \<lparr> shape = [0], elems = [] \<rparr>]
     = (issue [ReduceScatter] fresh_process, Inr \<lparr> shape = [0], elems = [] \<rparr>)"
  by (simp add: PostAllreduceSum_forward_def pair_group_size Let_def torch_chunk_def
        contributions_def dist_reduce_scatter_def empty_tensor_def numel_def sum_rows_def
        eval_nat_numeral)

text \<open>The theorem at two workers and one row: one chunk, and the assertion fails.\<close>

theorem contract_asserts_chunk_count_witness:
  "get_world_size pair_group = int 2 \<and> (1::nat) < 2 \<and>
   shape \<lparr> shape = [1], elems = [5::int] \<rparr> = 1 # [] \<and>
   PostAllreduceSum_forward fresh_process pair_group \<lparr> shape = [1], elems = [5::int] \<rparr> []
     = (fresh_process, Inl AssertionError)"
proof -
  have s: "shape \<lparr> shape = [1], elems = [5::int] \<rparr> = 1 # []" by simp
  have p: "(1::nat) < 2" by simp
  from contract_asserts_chunk_count[OF pair_group_size(1) p s, of fresh_process "[]"]
  show ?thesis using pair_group_size(1) by (auto split: if_splits)
qed


subsection \<open>The Expand forward\<close>


lemma ceil_div_rows: "0 < p \<Longrightarrow> (p + p - 1) div p = (1::nat)"
  by (rule div_nat_eqI) auto

lemma torch_chunk_rows:
  assumes "0 < p"
  shows "\<exists>cs. torch_chunk (empty_tensor [p, n] :: ('a::zero) tensor) p = Inr cs \<and>
              map numel cs = replicate p n"
proof -
  have "map (\<lambda>c. min (Suc 0) (p - c) * n) [0..<p] = replicate p n"
    by (rule nth_equalityI) (auto simp: min_def)
  then show ?thesis
    using assms ceil_div_rows[OF assms]
    by (simp add: torch_chunk_def empty_tensor_def Let_def numel_def comp_def)
qed

lemma contributions_ok:
  assumes "get_world_size g = int p" "get_world_rank g = int r" "r < p" "length peers = p"
  shows "contributions g own peers = Inr (peers[r := own])"
  using assms by (simp add: contributions_def)

lemma dist_all_gather_ok:
  assumes "\<forall>t\<in>set ts. numel t = n"
  shows "dist_all_gather (replicate (length ts) n) ts = Inr (concat (map elems ts))"
proof -
  have "map numel ts = replicate (length ts) n"
    using assms by (intro nth_equalityI) auto
  then show ?thesis by (simp add: dist_all_gather_def)
qed

lemma pre_forward_char:
  assumes ws: "get_world_size g = int p" and p: "1 < p"
    and rk: "get_world_rank g = int r" "r < p"
    and len: "length ts = p"
    and shapes: "\<forall>t\<in>set ts. shape t = d0 # rest"
  shows "PreAllreduceSum_forward st g (ts ! r) ts =
           (issue [AllGather] st,
            Inr \<lparr> shape = (d0 * p) # rest, elems = concat (map elems ts) \<rparr>)"
proof -
  have np: "\<not> p \<le> Suc 0" "0 < p" using p by simp_all
  have shr: "shape (ts ! r) = d0 # rest" using shapes rk len by simp
  obtain cs where cs: "torch_chunk (empty_tensor [p, numel (ts ! r)] :: 'a tensor) p = Inr cs"
      "map numel cs = replicate p (numel (ts ! r))"
    using torch_chunk_rows[OF np(2)] by blast
  have con: "contributions g (ts ! r) ts = Inr ts"
    using contributions_ok[OF ws rk len, of "ts ! r"] by simp
  have "\<forall>t\<in>set ts. numel t = numel (ts ! r)"
    using shapes shr by (simp add: numel_def)
  from dist_all_gather_ok[OF this]
  have ag: "dist_all_gather (replicate p (numel (ts ! r))) ts = Inr (concat (map elems ts))"
    using len by simp
  show ?thesis
    using np by (simp add: PreAllreduceSum_forward_def Let_def ws cs con ag shr)
qed

text \<open>
  Claim C7, amended. For every group of \<open>P > 1\<close> workers whose local inputs have one
  common shape with at least one dimension, the Expand forward returns, on every worker
  alike, the tensor whose leading dimension is \<open>P\<close> times the input's and whose
  elements are the workers' values one after the other in rank order: a concatenation
  along the existing leading axis, containing every worker's contribution.
\<close>

theorem expand_concatenates_leading_axis:
  assumes "get_world_size g = int p" and "1 < p"
    and "get_world_rank g = int r" and "r < p"
    and "length ts = p"
    and "\<forall>t\<in>set ts. shape t = d0 # rest"
  shows "PreAllreduceSum_forward st g (ts ! r) ts =
           (issue [AllGather] st,
            Inr \<lparr> shape = (d0 * p) # rest, elems = concat (map elems ts) \<rparr>)"
  using assms by (rule pre_forward_char)

lemma pair_rank: "get_world_rank pair_group = int 0"
  by (simp add: pair_group_size)

text \<open>The theorem at two workers holding one element each.\<close>

theorem expand_concatenates_leading_axis_witness:
  "get_world_size pair_group = int 2 \<and> (1::nat) < 2 \<and> get_world_rank pair_group = int 0 \<and>
   (0::nat) < 2 \<and>
   length [\<lparr> shape = [1], elems = [7::int] \<rparr>, \<lparr> shape = [1], elems = [9] \<rparr>] = 2 \<and>
   PreAllreduceSum_forward fresh_process pair_group \<lparr> shape = [1], elems = [7::int] \<rparr>
       [\<lparr> shape = [1], elems = [7] \<rparr>, \<lparr> shape = [1], elems = [9] \<rparr>]
     = (issue [AllGather] fresh_process, Inr \<lparr> shape = [2], elems = [7, 9] \<rparr>)"
proof -
  let ?ts = "[\<lparr> shape = [1], elems = [7::int] \<rparr>, \<lparr> shape = [1], elems = [9] \<rparr>]"
  have a: "(1::nat) < 2" "(0::nat) < 2" "length ?ts = 2" by simp_all
  have b: "\<forall>t\<in>set ?ts. shape t = 1 # []" by simp
  from expand_concatenates_leading_axis[OF pair_group_size(1) a(1) pair_rank a(2) a(3) b,
      of fresh_process]
  show ?thesis using pair_group_size(1) pair_rank by simp
qed

lemma pre_forward_no_dims:
  assumes ws: "get_world_size g = int p" and p: "1 < p"
    and rk: "get_world_rank g = int r" "r < p"
    and len: "length ts = p"
    and shapes: "\<forall>t\<in>set ts. shape t = []"
  shows "PreAllreduceSum_forward st g (ts ! r) ts = (issue [AllGather] st, Inl IndexError)"
proof -
  have np: "\<not> p \<le> Suc 0" "0 < p" using p by simp_all
  have shr: "shape (ts ! r) = []" using shapes rk len by simp
  obtain cs where cs: "torch_chunk (empty_tensor [p, numel (ts ! r)] :: 'a tensor) p = Inr cs"
      "map numel cs = replicate p (numel (ts ! r))"
    using torch_chunk_rows[OF np(2)] by blast
  have con: "contributions g (ts ! r) ts = Inr ts"
    using contributions_ok[OF ws rk len, of "ts ! r"] by simp
  have "\<forall>t\<in>set ts. numel t = numel (ts ! r)"
    using shapes shr by (simp add: numel_def)
  from dist_all_gather_ok[OF this]
  have ag: "dist_all_gather (replicate p (numel (ts ! r))) ts = Inr (concat (map elems ts))"
    using len by simp
  show ?thesis
    using np by (simp add: PreAllreduceSum_forward_def Let_def ws cs con ag shr)
qed

text \<open>
  The scenarios against claim C7 as stated: two workers with inputs of shape \<open>[1]\<close>
  get shape \<open>[2]\<close>, where a new leading axis of size \<open>P\<close> gives \<open>[2, 1]\<close>; and
  on inputs without dimensions \<open>input.shape[0]\<close> raises, so no tensor is returned.
\<close>

theorem expand_new_axis_counterexample:
  "PreAllreduceSum_forward fresh_process pair_group \<lparr> shape = [1], elems = [7::int] \<rparr>
       [\<lparr> shape = [1], elems = [7] \<rparr>, \<lparr> shape = [1], elems = [9] \<rparr>]
     = (issue [AllGather] fresh_process, Inr \<lparr> shape = [2], elems = [7, 9] \<rparr>) \<and>
   expand_stacked [\<lparr> shape = [1], elems = [7::int] \<rparr>, \<lparr> shape = [1], elems = [9] \<rparr>]
     = \<lparr> shape = [2, 1], elems = [7, 9] \<rparr> \<and>
   PreAllreduceSum_forward fresh_process pair_group \<lparr> shape = [], elems = [7::int] \<rparr>
       [\<lparr> shape = [], elems = [7] \<rparr>, \<lparr> shape = [], elems = [9] \<rparr>]
     = (issue [AllGather] fresh_process, Inl IndexError)"
proof -
  let ?ts = "[\<lparr> shape = [1], elems = [7::int] \<rparr>, \<lparr> shape = [1], elems = [9] \<rparr>]"
  let ?us = "[\<lparr> shape = [], elems = [7::int] \<rparr>, \<lparr> shape = [], elems = [9] \<rparr>]"
  have a: "(1::nat) < 2" "(0::nat) < 2" "length ?ts = 2" "length ?us = 2" by simp_all
  have b: "\<forall>t\<in>set ?ts. shape t = 1 # []" by simp
  have c: "\<forall>t\<in>set ?us. shape t = []" by simp
  have one: "PreAllreduceSum_forward fresh_process pair_group (?ts ! 0) ?ts
     = (issue [AllGather] fresh_process, Inr \<lparr> shape = (1 * 2) # [], elems = concat (map elems ?ts) \<rparr>)"
    by (rule pre_forward_char[OF pair_group_size(1) a(1) pair_rank a(2) a(3) b])
  have two: "PreAllreduceSum_forward fresh_process pair_group (?us ! 0) ?us
     = (issue [AllGather] fresh_process, Inl IndexError)"
    by (rule pre_forward_no_dims[OF pair_group_size(1) a(1) pair_rank a(2) a(4) c])
  show ?thesis using one two by (simp add: expand_stacked_def)
qed


subsection \<open>Expand and Contract as a mirrored pair\<close>


lemma ceil_div_even:
  assumes "0 < p"
  shows "(d0 * p + p - Suc 0) div p = d0"
  by (rule div_nat_eqI) (use assms in \<open>auto simp: algebra_simps\<close>)

lemma ceil_div_back:
  assumes "0 < d0"
  shows "(d0 * p + d0 - Suc 0) div d0 = p"
  by (rule div_nat_eqI) (use assms in \<open>auto simp: algebra_simps\<close>)

lemma ceil_div_rows': "0 < p \<Longrightarrow> (p + p - Suc 0) div p = Suc 0"
  by (rule div_nat_eqI) auto

lemma post_forward_chunks:
  assumes sh: "shape dout = (d0 * p) # rest" and d0: "0 < d0" and p: "0 < p"
  shows "torch_chunk dout p =
           Inr (map (\<lambda>c. \<lparr> shape = d0 # rest,
                             elems = part (d0 * prod_list rest) c (elems dout) \<rparr>) [0..<p])"
proof -
  have m: "min d0 (d0 * p - c * d0) = d0" if "c < p" for c
  proof -
    from that have "Suc c \<le> p" by simp
    then have "d0 * Suc c \<le> d0 * p" by (rule mult_le_mono2)
    then show ?thesis by (simp add: algebra_simps)
  qed
  have eq: "map (\<lambda>c. \<lparr> shape = min d0 (d0 * p - c * d0) # rest,
                   elems = take (min d0 (d0 * p - c * d0) * prod_list rest)
                             (drop (c * d0 * prod_list rest) (elems dout)) \<rparr>) [0..<p]
        = map (\<lambda>c. \<lparr> shape = d0 # rest,
                       elems = part (d0 * prod_list rest) c (elems dout) \<rparr>) [0..<p]"
    by (rule map_cong) (auto simp: m part_def algebra_simps)
  have "torch_chunk dout p =
          Inr (map (\<lambda>c. \<lparr> shape = min d0 (d0 * p - c * d0) # rest,
                   elems = take (min d0 (d0 * p - c * d0) * prod_list rest)
                             (drop (c * d0 * prod_list rest) (elems dout)) \<rparr>) [0..<p])"
    using d0 p by (simp add: torch_chunk_def sh Let_def ceil_div_even ceil_div_back)
  then show ?thesis by (simp only: eq)
qed

lemma pre_backward_chunks:
  assumes sh: "shape dout = (d0 * p) # rest" and ne: "0 < numel dout" and p: "0 < p"
  shows "bind_err (view_rows dout p) (\<lambda>v. torch_chunk v p) =
           Inr (map (\<lambda>c. \<lparr> shape = [1, d0 * prod_list rest],
                             elems = part (d0 * prod_list rest) c (elems dout) \<rparr>) [0..<p])"
proof -
  let ?m = "d0 * prod_list rest"
  have n: "numel dout = ?m * p" by (simp add: numel_def sh algebra_simps)
  have v: "view_rows dout p = Inr \<lparr> shape = [p, ?m], elems = elems dout \<rparr>"
    using ne p by (simp add: view_rows_def n)
  have eq: "map (\<lambda>c. \<lparr> shape = [min (Suc 0) (p - c), ?m],
                   elems = take (min (Suc 0) (p - c) * ?m) (drop (c * ?m) (elems dout)) \<rparr>) [0..<p]
        = map (\<lambda>c. \<lparr> shape = [1, ?m], elems = part ?m c (elems dout) \<rparr>) [0..<p]"
    by (rule map_cong) (auto simp: part_def min_def)
  have "torch_chunk \<lparr> shape = [p, ?m], elems = elems dout \<rparr> p =
          Inr (map (\<lambda>c. \<lparr> shape = [min (Suc 0) (p - c), ?m],
                   elems = take (min (Suc 0) (p - c) * ?m) (drop (c * ?m) (elems dout)) \<rparr>) [0..<p])"
    using p by (simp add: torch_chunk_def Let_def ceil_div_rows')
  then show ?thesis by (simp only: v bind_err.simps eq)
qed

lemma reduce_scatter_ok:
  assumes "\<forall>l\<in>set input_lists. length l = length input_lists \<and> (\<forall>t\<in>set l. numel t = m)"
  shows "dist_reduce_scatter r m input_lists =
           Inr (sum_rows m (map (\<lambda>l. elems (l ! r)) input_lists))"
  using assms by (simp add: dist_reduce_scatter_def list_all_iff)



lemma shards_reduce:
  assumes len: "length douts = p" and r: "r < p"
    and lists: "list_all2 (shards_of p m) input_lists douts"
    and own: "shards_of p m own (douts ! r)"
  shows "dist_reduce_scatter r m (input_lists[r := own]) =
           Inr (sum_rows m (map (\<lambda>t. part m r (elems t)) douts))"
proof -
  let ?ls = "input_lists[r := own]"
  have ll: "length input_lists = p" using lists len by (simp add: list_all2_lengthD)
  have each: "shards_of p m (?ls ! j) (douts ! j)" if "j < p" for j
    using that lists own ll len by (cases "j = r") (auto simp: list_all2_nthD)
  have ok: "\<forall>l\<in>set ?ls. length l = length ?ls \<and> (\<forall>t\<in>set l. numel t = m)"
  proof
    fix l assume "l \<in> set ?ls"
    then obtain j where j: "j < p" "l = ?ls ! j"
      using ll by (auto simp: in_set_conv_nth)
    from each[OF j(1)] have s: "shards_of p m l (douts ! j)" using j by simp
    then have "\<forall>t\<in>set l. numel t = m"
      by (auto simp: shards_of_def in_set_conv_nth)
    with s ll show "length l = length ?ls \<and> (\<forall>t\<in>set l. numel t = m)"
      by (simp add: shards_of_def)
  qed
  have "map (\<lambda>l. elems (l ! r)) ?ls = map (\<lambda>t. part m r (elems t)) douts"
  proof (rule nth_equalityI)
    show "length (map (\<lambda>l. elems (l ! r)) ?ls) = length (map (\<lambda>t. part m r (elems t)) douts)"
      using ll len by simp
  next
    fix j assume "j < length (map (\<lambda>l. elems (l ! r)) ?ls)"
    then have j: "j < p" using ll by simp
    from each[OF j] r have "elems (?ls ! j ! r) = part m r (elems (douts ! j))"
      by (simp add: shards_of_def)
    then show "map (\<lambda>l. elems (l ! r)) ?ls ! j = map (\<lambda>t. part m r (elems t)) douts ! j"
      using j ll len by simp
  qed
  then show ?thesis using reduce_scatter_ok[OF ok, of r] by simp
qed

lemma post_forward_char:
  assumes ws: "get_world_size g = int p" and p: "1 < p"
    and rk: "get_world_rank g = int r" "r < p"
    and len: "length douts = p"
    and shapes: "\<forall>t\<in>set douts. shape t = (d0 * p) # rest"
    and pos: "0 < d0 * prod_list rest"
    and lists: "list_all2 (shards_of p (d0 * prod_list rest)) input_lists douts"
  shows "PostAllreduceSum_forward st g (douts ! r) input_lists =
           (issue [ReduceScatter] st,
            Inr \<lparr> shape = d0 # rest,
                  elems = sum_rows (d0 * prod_list rest)
                            (map (\<lambda>t. part (d0 * prod_list rest) r (elems t)) douts) \<rparr>)"
proof -
  let ?m = "d0 * prod_list rest"
  let ?own = "map (\<lambda>c. \<lparr> shape = d0 # rest, elems = part ?m c (elems (douts ! r)) \<rparr>) [0..<p]"
  have np: "\<not> p \<le> Suc 0" "0 < p" "0 < d0" using p pos by simp_all
  have shr: "shape (douts ! r) = (d0 * p) # rest" using shapes rk len by simp
  have ch: "torch_chunk (douts ! r) p = Inr ?own"
    by (rule post_forward_chunks[OF shr np(3) np(2)])
  have ll: "length input_lists = p" using lists len by (simp add: list_all2_lengthD)
  have con: "contributions g ?own input_lists = Inr (input_lists[r := ?own])"
    by (rule contributions_ok[OF ws rk ll])
  have own: "shards_of p ?m ?own (douts ! r)"
    by (simp add: shards_of_def numel_def)
  have rs: "dist_reduce_scatter r ?m (input_lists[r := ?own]) =
           Inr (sum_rows ?m (map (\<lambda>t. part ?m r (elems t)) douts))"
    by (rule shards_reduce[OF len rk(2) lists own])
  have first: "?own ! 0 = \<lparr> shape = d0 # rest, elems = part ?m 0 (elems (douts ! r)) \<rparr>"
    using np(2) by simp
  have ne: "numel (empty_tensor (d0 # rest) :: 'a tensor) = ?m"
    by (simp add: numel_def empty_tensor_def)
  have sh0: "shape (empty_tensor (d0 # rest) :: 'a tensor) = d0 # rest"
    by (simp add: empty_tensor_def)
  show ?thesis
    unfolding PostAllreduceSum_forward_def Let_def ws
    using np(1) rk(1)
    by (simp add: ch con first ne sh0 rs del: upt_Suc nth_map)
qed


lemma pre_backward_char:
  assumes ws: "get_world_size g = int p" and p: "1 < p"
    and rk: "get_world_rank g = int r" "r < p"
    and x: "shape x = d0 # rest"
    and len: "length (douts :: ('a::comm_monoid_add) tensor list) = p"
    and shapes: "\<forall>t\<in>set douts. shape t = (d0 * p) # rest"
    and pos: "0 < d0 * prod_list rest"
    and lists: "list_all2 (shards_of p (d0 * prod_list rest)) input_lists douts"
  shows "PreAllreduceSum_backward st (allreduce_ctx_of g x) (douts ! r) input_lists =
           (issue [ReduceScatter] st,
            Inr (None, \<lparr> shape = d0 # rest,
                  elems = sum_rows (d0 * prod_list rest)
                            (map (\<lambda>t. part (d0 * prod_list rest) r (elems t)) douts) \<rparr>))"
proof -
  let ?m = "d0 * prod_list rest"
  have np: "\<not> p \<le> Suc 0" "0 < p" "0 < d0" using p pos by simp_all
  have shr: "shape (douts ! r) = (d0 * p) # rest" using shapes rk len by simp
  have ne: "0 < numel (douts ! r)" using pos np(2) by (simp add: numel_def shr)
  obtain own where ch: "bind_err (view_rows (douts ! r) p) (\<lambda>v. torch_chunk v p) = Inr own"
    and own: "shards_of p ?m own (douts ! r)"
    using pre_backward_chunks[OF shr ne np(2)] by (simp add: shards_of_def numel_def)
  have ll: "length input_lists = p" using lists len by (simp add: list_all2_lengthD)
  have con: "contributions g own input_lists = Inr (input_lists[r := own])"
    by (rule contributions_ok[OF ws rk ll])
  have rs: "dist_reduce_scatter r ?m (input_lists[r := own]) =
           Inr (sum_rows ?m (map (\<lambda>t. part ?m r (elems t)) douts))"
    by (rule shards_reduce[OF len rk(2) lists own])
  have nd: "numel (empty_tensor (d0 # rest) :: 'a tensor) = ?m"
    by (simp add: numel_def empty_tensor_def)
  have ctx: "ctx_group (allreduce_ctx_of g x) = g" "ctx_num_nodes (allreduce_ctx_of g x) = int p"
      "ctx_input_shape (allreduce_ctx_of g x) = Some (d0 # rest)"
    using np(1) by (simp_all add: allreduce_ctx_of_def ws x)
  show ?thesis
    unfolding PreAllreduceSum_backward_def Let_def ctx ws
    using np(1) rk(1)
    by (simp add: ch con nd rs)
qed

lemma post_backward_char:
  assumes ws: "get_world_size g = int p" and p: "1 < p"
    and rk: "get_world_rank g = int r" "r < p"
    and dout: "shape dout = (d0 * p) # rest"
    and len: "length (xs :: ('a::comm_monoid_add) tensor list) = p"
    and shapes: "\<forall>t\<in>set xs. shape t = d0 # rest"
    and pos: "0 < d0 * prod_list rest"
  shows "PostAllreduceSum_backward st (allreduce_ctx_of g dout) (xs ! r) xs =
           (issue [AllGather] st,
            Inr (None, \<lparr> shape = (d0 * p) # rest, elems = concat (map elems xs) \<rparr>))"
proof -
  let ?m = "d0 * prod_list rest"
  let ?e = "empty_tensor ((d0 * p) # rest) :: 'a tensor"
  have np: "\<not> p \<le> Suc 0" "0 < p" "0 < d0" using p pos by simp_all
  have she: "shape ?e = (d0 * p) # rest" by (simp add: empty_tensor_def)
  have "map numel (map (\<lambda>c. \<lparr> shape = d0 # rest, elems = part ?m c (elems ?e) \<rparr>) [0..<p])
          = replicate (length xs) ?m"
    using len by (intro nth_equalityI) (auto simp: numel_def)
  then obtain tl where ch: "torch_chunk ?e p = Inr tl"
    and sizes: "map numel tl = replicate (length xs) ?m"
    using post_forward_chunks[OF she np(3) np(2)] by blast
  have con: "contributions g (xs ! r) xs = Inr xs"
    using contributions_ok[OF ws rk len, of "xs ! r"] by simp
  have "\<forall>t\<in>set xs. numel t = ?m" using shapes by (simp add: numel_def)
  from dist_all_gather_ok[OF this]
  have ag: "dist_all_gather (map numel tl) xs = Inr (concat (map elems xs))"
    by (simp only: sizes)
  have ctx: "ctx_group (allreduce_ctx_of g dout) = g"
      "ctx_num_nodes (allreduce_ctx_of g dout) = int p"
      "ctx_input_shape (allreduce_ctx_of g dout) = Some ((d0 * p) # rest)"
    using np(1) by (simp_all add: allreduce_ctx_of_def ws dout)
  show ?thesis
    unfolding PostAllreduceSum_backward_def Let_def ctx
    using np(1)
    by (simp add: ch con ag)
qed

text \<open>
  Claim C5. In a group of \<open>P > 1\<close> workers, with local values of one shape
  \<open>[d0, ...]\<close> and gradients of shape \<open>[d0 * P, ...]\<close> (not empty), Expand and
  Contract mirror each other: the Expand forward is an all-gather that concatenates the
  workers' values, and its backward is a reduce-scatter that returns to each worker the
  sum, over the workers, of its own shard of their gradients; the Contract forward is
  that same reduce-scatter, and its backward is that same all-gather, reassembling the
  full concatenated gradient.
\<close>

theorem expand_contract_mirrored:
  assumes ws: "get_world_size g = int p" and p: "1 < p"
    and rk: "get_world_rank g = int r" "r < p"
    and xlen: "length xs = p"
    and xshapes: "\<forall>t\<in>set xs. shape t = d0 # rest"
    and dlen: "length douts = p"
    and dshapes: "\<forall>t\<in>set douts. shape t = (d0 * p) # rest"
    and pos: "0 < d0 * prod_list rest"
    and lists: "list_all2 (shards_of p (d0 * prod_list rest)) input_lists douts"
  shows "PreAllreduceSum_forward st g (xs ! r) xs =
           (issue [AllGather] st,
            Inr \<lparr> shape = (d0 * p) # rest, elems = concat (map elems xs) \<rparr>) \<and>
         PreAllreduceSum_backward st (allreduce_ctx_of g (xs ! r)) (douts ! r) input_lists =
           (issue [ReduceScatter] st,
            Inr (None, \<lparr> shape = d0 # rest,
                  elems = sum_rows (d0 * prod_list rest)
                            (map (\<lambda>t. part (d0 * prod_list rest) r (elems t)) douts) \<rparr>)) \<and>
         PostAllreduceSum_forward st g (douts ! r) input_lists =
           (issue [ReduceScatter] st,
            Inr \<lparr> shape = d0 # rest,
                  elems = sum_rows (d0 * prod_list rest)
                            (map (\<lambda>t. part (d0 * prod_list rest) r (elems t)) douts) \<rparr>) \<and>
         PostAllreduceSum_backward st (allreduce_ctx_of g (douts ! r)) (xs ! r) xs =
           (issue [AllGather] st,
            Inr (None, \<lparr> shape = (d0 * p) # rest, elems = concat (map elems xs) \<rparr>))"
proof -
  have xr: "shape (xs ! r) = d0 # rest" using xshapes rk xlen by simp
  have dr: "shape (douts ! r) = (d0 * p) # rest" using dshapes rk dlen by simp
  show ?thesis
    using pre_forward_char[OF ws p rk xlen xshapes]
      pre_backward_char[OF ws p rk xr dlen dshapes pos lists]
      post_forward_char[OF ws p rk dlen dshapes pos lists]
      post_backward_char[OF ws p rk dr xlen xshapes pos]
    by blast
qed



text \<open>The theorem at two workers, seen from rank 0.\<close>

theorem expand_contract_mirrored_witness:
  "get_world_size pair_group = int 2 \<and> get_world_rank pair_group = int 0 \<and>
   list_all2 (shards_of 2 (1 * prod_list []))
     [[\<lparr> shape = [1], elems = [1::int] \<rparr>, \<lparr> shape = [1], elems = [2] \<rparr>],
      [\<lparr> shape = [1], elems = [10] \<rparr>, \<lparr> shape = [1], elems = [20] \<rparr>]]
     [\<lparr> shape = [2], elems = [1, 2] \<rparr>, \<lparr> shape = [2], elems = [10, 20] \<rparr>] \<and>
   PreAllreduceSum_forward fresh_process pair_group \<lparr> shape = [1], elems = [7::int] \<rparr>
       [\<lparr> shape = [1], elems = [7] \<rparr>, \<lparr> shape = [1], elems = [9] \<rparr>]
     = (issue [AllGather] fresh_process, Inr \<lparr> shape = [2], elems = [7, 9] \<rparr>) \<and>
   PreAllreduceSum_backward fresh_process
       (allreduce_ctx_of pair_group \<lparr> shape = [1], elems = [7::int] \<rparr>)
       \<lparr> shape = [2], elems = [1, 2::int] \<rparr>
       [[\<lparr> shape = [1], elems = [1] \<rparr>, \<lparr> shape = [1], elems = [2] \<rparr>],
        [\<lparr> shape = [1], elems = [10] \<rparr>, \<lparr> shape = [1], elems = [20] \<rparr>]]
     = (issue [ReduceScatter] fresh_process, Inr (None, \<lparr> shape = [1], elems = [11] \<rparr>)) \<and>
   PostAllreduceSum_forward fresh_process pair_group \<lparr> shape = [2], elems = [1, 2::int] \<rparr>
       [[\<lparr> shape = [1], elems = [1] \<rparr>, \<lparr> shape = [1], elems = [2] \<rparr>],
        [\<lparr> shape = [1], elems = [10] \<rparr>, \<lparr> shape = [1], elems = [20] \<rparr>]]
     = (issue [ReduceScatter] fresh_process, Inr \<lparr> shape = [1], elems = [11] \<rparr>) \<and>
   PostAllreduceSum_backward fresh_process
       (allreduce_ctx_of pair_group \<lparr> shape = [2], elems = [1, 2::int] \<rparr>)
       \<lparr> shape = [1], elems = [7::int] \<rparr>
       [\<lparr> shape = [1], elems = [7] \<rparr>, \<lparr> shape = [1], elems = [9] \<rparr>]
     = (issue [AllGather] fresh_process, Inr (None, \<lparr> shape = [2], elems = [7, 9] \<rparr>))"
proof -
  let ?xs = "[\<lparr> shape = [1], elems = [7::int] \<rparr>, \<lparr> shape = [1], elems = [9] \<rparr>]"
  let ?douts = "[\<lparr> shape = [2], elems = [1, 2::int] \<rparr>, \<lparr> shape = [2], elems = [10, 20] \<rparr>]"
  let ?lists = "[[\<lparr> shape = [1], elems = [1::int] \<rparr>, \<lparr> shape = [1], elems = [2] \<rparr>],
      [\<lparr> shape = [1], elems = [10] \<rparr>, \<lparr> shape = [1], elems = [20] \<rparr>]]"
  have a: "(1::nat) < 2" "(0::nat) < 2" "length ?xs = 2" "length ?douts = 2" by simp_all
  have b: "\<forall>t\<in>set ?xs. shape t = 1 # []" by simp
  have c: "\<forall>t\<in>set ?douts. shape t = (1 * 2) # []" by simp
  have pos: "(0::nat) < 1 * prod_list []" by simp
  have l: "list_all2 (shards_of 2 (1 * prod_list [])) ?lists ?douts"
    by (auto simp: shards_of_def part_def numel_def less_2_cases_iff)
  from expand_contract_mirrored[OF pair_group_size(1) a(1) pair_rank a(2) a(3) b a(4) c pos l,
      of fresh_process]
  show ?thesis
    using pair_group_size(1) pair_rank l
    by (simp add: sum_rows_def part_def)
qed


section \<open>The kernel cache and the configuration\<close>














text \<open>
  Claim C6, amended. No construction or update call is rejected for its configuration.
  The constructor stores the expert count and the capacity as given and replaces every
  requested precision other than \<open>float16\<close> (and \<open>float16\<close> too on a HIP build) by
  \<open>float32\<close>. \<open>update\<close> fails only when it is given no routing choice, with
  \<open>IndexError\<close>; otherwise it succeeds with the capacity it was passed (the stored
  one for \<open>None\<close> or \<open>0\<close>), whatever its sign.
\<close>

theorem configuration_not_validated:
  "num_global_experts (init_dispatcher hip e c m dt :: ('a::comm_ring_1) dispatcher) = e \<and>
   capacity (init_dispatcher hip e c m dt :: 'a dispatcher) = c \<and>
   original_dtype (init_dispatcher hip e c m dt :: 'a dispatcher) = dt \<and>
   dtype (init_dispatcher hip e c m dt :: 'a dispatcher)
     = (if hip \<or> dt \<noteq> float16 then float32 else float16) \<and>
   (case update (d :: 'a dispatcher) idx loc gts co of
      Inl err \<Rightarrow> err = IndexError \<and> idx = []
    | Inr d' \<Rightarrow> idx \<noteq> [] \<and> capacity d' = capacity_or co (capacity d) \<and>
               num_global_experts d' = num_global_experts d \<and> dtype d' = dtype d)"
  by (auto simp: init_dispatcher_def Let_def update_def split: list.splits option.splits sum.splits)

text \<open>The theorem at a negative expert count, a zero capacity and a precision of \<open>int8\<close>.\<close>

theorem configuration_not_validated_witness:
  "num_global_experts (init_dispatcher False (- 3) 0 4 int8 :: int dispatcher) = - 3 \<and>
   capacity (init_dispatcher False (- 3) 0 4 int8 :: int dispatcher) = 0 \<and>
   dtype (init_dispatcher False (- 3) 0 4 int8 :: int dispatcher) = float32 \<and>
   update top2_state [] [] [] (Some (- 5)) = Inl IndexError"
  using configuration_not_validated[where hip = False and e = "- 3" and c = 0 and m = 4
      and dt = int8 and d = top2_state and idx = "[]" and loc = "[]" and gts = "[]"
      and co = "Some (- 5)"]
  by (auto split: sum.splits)

text \<open>
  The scenario against claim C6 as stated: a dispatcher constructed with \<open>-3\<close>
  experts, capacity \<open>0\<close> and precision \<open>int8\<close>, then updated with capacity
  \<open>-5\<close>: both calls succeed.
\<close>

theorem configuration_errors_counterexample:
  "map_sum id (\<lambda>d. (num_global_experts d, capacity d, dtype d, original_dtype d))
     (update (init_dispatcher False (- 3) 0 4 int8 :: int dispatcher)
        [[0]] [[0]] [[1]] (Some (- 5)))
   = Inr (- 3, - 5, float32, int8)"
  by (simp add: update_def capacity_or_def init_dispatcher_def Let_def)


section \<open>The gather kernel, \<open>decode\<close> and the capacity drop\<close>


lemma add_matrix_nth:
  "t < length a \<Longrightarrow> t < length b \<Longrightarrow> add_matrix a b ! t = add_rows (a ! t) (b ! t)"
  by (simp add: add_matrix_def)

lemma length_add_matrix: "length (add_matrix a b) = min (length a) (length b)"
  by (simp add: add_matrix_def)

lemma gather_loop_char:
  assumes slots: "\<forall>t<n. loc ! t < cap \<longrightarrow>
              0 \<le> slot_row cap (idx ! t) (loc ! t) \<and>
              slot_row cap (idx ! t) (loc ! t) < int (length buf)"
    and n: "n \<le> length out"
  shows "\<exists>res. gather_loop cap gs buf idx loc out n = Inr res \<and> length res = length out \<and>
           (\<forall>t<length out. res ! t =
              (if t < n then
                 (if loc ! t < cap
                  then scale_row (gs ! t) (buf ! nat (slot_row cap (idx ! t) (loc ! t)))
                  else map (\<lambda>_. 0) (out ! t))
               else out ! t))"
  using slots n
proof (induction n)
  case 0
  then show ?case by simp
next
  case (Suc n)
  then obtain res where res: "gather_loop cap gs buf idx loc out n = Inr res"
      "length res = length out"
    and rch: "\<forall>t<length out. res ! t =
              (if t < n then
                 (if loc ! t < cap
                  then scale_row (gs ! t) (buf ! nat (slot_row cap (idx ! t) (loc ! t)))
                  else map (\<lambda>_. 0) (out ! t))
               else out ! t)"
    by auto
  let ?row = "if loc ! n < cap
              then scale_row (gs ! n) (buf ! nat (slot_row cap (idx ! n) (loc ! n)))
              else map (\<lambda>_. 0) (out ! n)"
  have tok: "gather_token cap (gs ! n) (idx ! n) (loc ! n) buf (out ! n) = Inr ?row"
    using Suc.prems(1) by (simp add: gather_token_def Let_def)
  have step: "gather_loop cap gs buf idx loc out (Suc n) = Inr (res[n := ?row])"
    by (simp only: gather_loop.simps res(1) bind_err.simps tok)
  have "\<forall>t<length out. (res[n := ?row]) ! t =
              (if t < Suc n then
                 (if loc ! t < cap
                  then scale_row (gs ! t) (buf ! nat (slot_row cap (idx ! t) (loc ! t)))
                  else map (\<lambda>_. 0) (out ! t))
               else out ! t)"
  proof (intro allI impI)
    fix t assume t: "t < length out"
    show "(res[n := ?row]) ! t =
              (if t < Suc n then
                 (if loc ! t < cap
                  then scale_row (gs ! t) (buf ! nat (slot_row cap (idx ! t) (loc ! t)))
                  else map (\<lambda>_. 0) (out ! t))
               else out ! t)"
    proof (cases "t = n")
      case True
      then show ?thesis using t res(2) by simp
    next
      case False
      then show ?thesis using t res(2) rch by (simp add: less_Suc_eq)
    qed
  qed
  then show ?case using step res(2) by simp
qed



lemma backward_data_choice:
  assumes ok: "choice_ok experts n idx loc g"
    and gs: "n \<le> length gs"
    and len: "int (length buf) = experts * cap"
    and bw: "\<forall>r<length buf. length (buf ! r) = w"
    and out: "has_shape n w (out :: ('a::comm_ring_1) matrix)"
  shows "\<exists>res. create_backward_data (int n) experts cap hid dt gs buf idx loc out = Inr res \<and>
           has_shape n w res \<and>
           (\<forall>t<n. \<forall>j<w. res ! t ! j = gather_term cap gs idx loc buf t j) \<and>
           (\<forall>t<n. cap \<le> loc ! t \<longrightarrow> res ! t = replicate w 0)"
proof -
  have cover: "args_cover n gs idx loc out"
    using ok gs out by (simp add: args_cover_def choice_ok_def has_shape_def)
  have slots: "\<forall>t<n. loc ! t < cap \<longrightarrow>
              0 \<le> slot_row cap (idx ! t) (loc ! t) \<and>
              slot_row cap (idx ! t) (loc ! t) < int (length buf)"
    using choice_ok_slots[OF ok] len by simp
  have n: "n \<le> length out" using out by (simp add: has_shape_def)
  from gather_loop_char[OF slots n, of gs]
  obtain res where res: "gather_loop cap gs buf idx loc out n = Inr res" "length res = length out"
    and rch: "\<forall>t<length out. res ! t =
              (if t < n then
                 (if loc ! t < cap
                  then scale_row (gs ! t) (buf ! nat (slot_row cap (idx ! t) (loc ! t)))
                  else map (\<lambda>_. 0) (out ! t))
               else out ! t)"
    by blast
  have lo: "length out = n" using out by (simp add: has_shape_def)
  have row: "res ! t = (if loc ! t < cap
                  then scale_row (gs ! t) (buf ! nat (slot_row cap (idx ! t) (loc ! t)))
                  else replicate w 0)" if "t < n" for t
  proof -
    have "length (out ! t) = w" using out that by (rule has_shape_nth)
    then have "map (\<lambda>_. 0::'a) (out ! t) = replicate w 0"
      by (simp add: map_replicate_const)
    then show ?thesis using rch that lo by simp
  qed
  have brow: "length (buf ! nat (slot_row cap (idx ! t) (loc ! t))) = w"
    if "t < n" "loc ! t < cap" for t
  proof -
    from slots that have "nat (slot_row cap (idx ! t) (loc ! t)) < length buf" by auto
    then show ?thesis using bw by simp
  qed
  have shape: "has_shape n w res"
    using res(2) lo row brow by (auto simp: has_shape_def list_all_length length_scale_row)
  have vals: "\<forall>t<n. \<forall>j<w. res ! t ! j = gather_term cap gs idx loc buf t j"
    using row brow by (auto simp: gather_term_def scale_row_nth)
  have drop: "\<forall>t<n. cap \<le> loc ! t \<longrightarrow> res ! t = replicate w 0"
    using row by auto
  show ?thesis
    using res(1) cover shape vals drop by (simp add: create_backward_data_def)
qed

lemma accumulate_loop_char:
  assumes "\<forall>c<i. \<exists>m. body c = Inr m \<and> has_shape n w m \<and> (\<forall>t<n. \<forall>j<w. m ! t ! j = f c t j)"
  shows "\<exists>r. accumulate_loop body i = Inr r \<and> (i = 0 \<longrightarrow> r = None) \<and>
           (0 < i \<longrightarrow> (\<exists>m. r = Some m \<and> has_shape n w m \<and>
                        (\<forall>t<n. \<forall>j<w. m ! t ! j = (\<Sum>c<i. f c t j :: 'a::comm_ring_1))))"
  using assms
proof (induction i)
  case 0
  then show ?case by simp
next
  case (Suc i)
  then obtain r where r: "accumulate_loop body i = Inr r" "i = 0 \<longrightarrow> r = None"
     "0 < i \<longrightarrow> (\<exists>m. r = Some m \<and> has_shape n w m \<and>
                        (\<forall>t<n. \<forall>j<w. m ! t ! j = (\<Sum>c<i. f c t j)))"
    by auto
  from Suc.prems obtain x where x: "body i = Inr x" "has_shape n w x"
      "\<forall>t<n. \<forall>j<w. x ! t ! j = f i t j"
    by auto
  let ?new = "case r of None \<Rightarrow> x | Some acc \<Rightarrow> add_matrix acc x"
  have step: "accumulate_loop body (Suc i) = Inr (Some ?new)"
    by (simp add: r(1) x(1))
  have "has_shape n w ?new \<and> (\<forall>t<n. \<forall>j<w. ?new ! t ! j = (\<Sum>c<Suc i. f c t j))"
  proof (cases "i = 0")
    case True
    then show ?thesis using r(2) x by simp
  next
    case False
    then obtain m where m: "r = Some m" "has_shape n w m"
        "\<forall>t<n. \<forall>j<w. m ! t ! j = (\<Sum>c<i. f c t j)"
      using r(3) by auto
    have lm: "length m = n" "length x = n" using m(2) x(2) by (simp_all add: has_shape_def)
    have rows: "length (m ! t) = w" "length (x ! t) = w" if "t < n" for t
      using m(2) x(2) that by (simp_all add: has_shape_nth)
    have "has_shape n w (add_matrix m x)"
      using lm rows
      by (simp add: has_shape_def list_all_length length_add_matrix add_matrix_nth length_add_rows)
    moreover have "\<forall>t<n. \<forall>j<w. add_matrix m x ! t ! j = (\<Sum>c<Suc i. f c t j)"
      using lm rows m(3) x(3) by (simp add: add_matrix_nth add_rows_nth)
    ultimately show ?thesis using m(1) by simp
  qed
  then show ?case using step by auto
qed




lemma zeros_shape: "has_shape n w (replicate n (replicate w 0))"
  by (simp add: has_shape_def list_all_length)

lemma has_shape_rows: "has_shape n w m \<Longrightarrow> \<forall>r<length m. length (m ! r) = w"
  by (simp add: has_shape_def list_all_length)

lemma buffer_rows:
  assumes "routing_ok d" "has_shape (nat (num_global_experts d * capacity d)) w y"
  shows "int (length y) = num_global_experts d * capacity d"
  using assms by (simp add: routing_ok_def has_shape_def)

lemma decoder_single_output_char:
  assumes rok: "routing_ok d"
    and k: "k = build_kernels (expected_sample_size d) (num_global_experts d) (capacity d) hid dt"
    and n: "expected_sample_size d = int n"
    and y: "has_shape (nat (num_global_experts d * capacity d)) (nat (model_dim d)) y"
    and i: "i < length (indices d)"
  shows "\<exists>m. decoder_single_output k d y (gates d) i = Inr m \<and>
           has_shape n (nat (model_dim d)) m \<and>
           (\<forall>t<n. \<forall>j<nat (model_dim d). m ! t ! j = combine_term d y t j i) \<and>
           (\<forall>t<n. capacity d \<le> locations d ! i ! t \<longrightarrow> m ! t = replicate (nat (model_dim d)) 0)"
proof -
  let ?w = "nat (model_dim d)"
  have md: "0 \<le> model_dim d" using rok by (simp add: routing_ok_def)
  have e: "torch_empty (int n) (model_dim d) = Inr (replicate n (replicate ?w 0))"
    using md by (simp add: torch_empty_def torch_zeros_ok)
  have ok: "choice_ok (num_global_experts d) n (indices d ! i) (locations d ! i) (gates d ! i)"
    using routing_ok_choice[OF rok i] n by simp
  have gl: "n \<le> length (gates d ! i)" using ok by (simp add: choice_ok_def)
  have il: "i < length (gates d)" "i < length (locations d)"
    using rok i by (simp_all add: routing_ok_def)
  from backward_data_choice[OF ok gl buffer_rows[OF rok y] has_shape_rows[OF y] zeros_shape,
      of hid dt]
  obtain m where m: "create_backward_data (int n) (num_global_experts d) (capacity d) hid dt
        (gates d ! i) y (indices d ! i) (locations d ! i) (replicate n (replicate ?w 0)) = Inr m"
      "has_shape n ?w m"
      "\<forall>t<n. \<forall>j< ?w. m ! t ! j =
          gather_term (capacity d) (gates d ! i) (indices d ! i) (locations d ! i) y t j"
      "\<forall>t<n. capacity d \<le> locations d ! i ! t \<longrightarrow> m ! t = replicate ?w 0"
    by blast
  have run: "decoder_single_output k d y (gates d) i = Inr m"
    using m(1) il by (simp add: decoder_single_output_def e k n build_kernels_def)
  have vals: "\<forall>t<n. \<forall>j< ?w. m ! t ! j = combine_term d y t j i"
    using m(3) by (simp add: combine_term_def gather_term_def)
  show ?thesis using run m(2) vals m(4) by blast
qed

lemma decode_char:
  assumes inst: "installed d"
    and rok: "routing_ok d"
    and y: "has_shape (nat (num_global_experts d * capacity d)) (nat (model_dim d)) y"
  shows "\<exists>out. decode d y = Inr out \<and>
           has_shape (nat (expected_sample_size d)) (nat (model_dim d)) out \<and>
           (\<forall>t<nat (expected_sample_size d). \<forall>j<nat (model_dim d).
              out ! t ! j = (\<Sum>i<length (indices d). combine_term d y t j i))"
proof -
  let ?n = "nat (expected_sample_size d)" and ?w = "nat (model_dim d)"
  let ?k = "build_kernels (expected_sample_size d) (num_global_experts d) (capacity d)
              (aligned_dim d) (dtype d)"
  have cur: "kernels_current d" using installed_inv[OF inst] by simp
  then have ik: "installed_kernels d = Some ?k" and n: "expected_sample_size d = int ?n"
    and ne: "0 < length (indices d)"
    by (simp_all add: kernels_current_def)
  have body: "\<forall>c<length (indices d). \<exists>m. decoder_single_output ?k d y (gates d) c = Inr m \<and>
        has_shape ?n ?w m \<and> (\<forall>t< ?n. \<forall>j< ?w. m ! t ! j = combine_term d y t j c)"
    using decoder_single_output_char[OF rok refl n y] by blast
  from accumulate_loop_char[OF body] ne
  obtain m where m: "accumulate_loop (decoder_single_output ?k d y (gates d)) (length (indices d))
        = Inr (Some m)" "has_shape ?n ?w m"
      "\<forall>t< ?n. \<forall>j< ?w. m ! t ! j = (\<Sum>c<length (indices d). combine_term d y t j c)"
    by blast
  have "decode d y = Inr m"
    by (simp add: decode_def GatingDecoder_forward_def ik m(1))
  then show ?thesis using m(2,3) by blast
qed

text \<open>
  Claim C3. For every dispatcher state installed by \<open>update\<close> with \<open>K\<close> well-formed
  routing choices and every expert output of shape
  \<open>[num_global_experts * capacity, model_dim]\<close>, \<open>decode\<close> returns a tensor of shape
  \<open>[sample_size, model_dim]\<close> whose row for token \<open>t\<close> is the sum over all \<open>K\<close>
  choices of \<open>gates[i][t]\<close> times the expert output row
  \<open>indices[i][t] * capacity + locations[i][t]\<close>, a choice whose location is at or above
  the capacity contributing zero.
\<close>

theorem decode_combines_all_choices:
  assumes "installed d"
    and "routing_ok d"
    and "has_shape (nat (num_global_experts d * capacity d)) (nat (model_dim d)) expert_output"
  shows "\<exists>out. decode d expert_output = Inr out \<and>
           has_shape (nat (expected_sample_size d)) (nat (model_dim d)) out \<and>
           (\<forall>t<nat (expected_sample_size d). \<forall>j<nat (model_dim d).
              out ! t ! j =
                (\<Sum>i<length (indices d).
                   if locations d ! i ! t < capacity d
                   then gates d ! i ! t *
                        expert_output !
                          nat (indices d ! i ! t * capacity d + locations d ! i ! t) ! j
                   else 0))"
proof -
  from decode_char[OF assms]
  obtain out where out: "decode d expert_output = Inr out"
      "has_shape (nat (expected_sample_size d)) (nat (model_dim d)) out"
      "\<forall>t<nat (expected_sample_size d). \<forall>j<nat (model_dim d).
              out ! t ! j = (\<Sum>i<length (indices d). combine_term d expert_output t j i)"
    by blast
  have "\<forall>t<nat (expected_sample_size d). \<forall>j<nat (model_dim d).
              out ! t ! j =
                (\<Sum>i<length (indices d).
                   if locations d ! i ! t < capacity d
                   then gates d ! i ! t *
                        expert_output !
                          nat (indices d ! i ! t * capacity d + locations d ! i ! t) ! j
                   else 0)"
    using out(3) unfolding combine_term_def slot_row_def .
  then show ?thesis using out(1,2) by blast
qed



lemma top2_decode: "decode top2_state [[3], [4]] = Inr [[7]]"
  by (simp add: decode_def GatingDecoder_forward_def decoder_single_output_def top2_fields
        torch_empty_def torch_zeros_def build_kernels_def create_backward_data_def args_cover_def
        gather_token_def slot_row_def add_matrix_def add_rows_def scale_row_def eval_nat_numeral)

lemma top2_routing_ok: "routing_ok top2_state"
  by (simp add: routing_ok_def choice_ok_def top2_fields)

text \<open>The theorem at the two-choice scenario: the token's row is \<open>1 * 3 + 1 * 4\<close>.\<close>

theorem decode_combines_all_choices_witness:
  "installed top2_state \<and> routing_ok top2_state \<and>
   has_shape (nat (num_global_experts top2_state * capacity top2_state))
     (nat (model_dim top2_state)) [[3], [4::int]] \<and>
   decode top2_state [[3], [4]] = Inr [[7]] \<and>
   (\<Sum>i<length (indices top2_state).
       if locations top2_state ! i ! 0 < capacity top2_state
       then gates top2_state ! i ! 0 *
            [[3], [4]] ! nat (indices top2_state ! i ! 0 * capacity top2_state
                               + locations top2_state ! i ! 0) ! 0
       else 0) = (7::int)"
proof -
  have s: "has_shape (nat (num_global_experts top2_state * capacity top2_state))
     (nat (model_dim top2_state)) [[3], [4::int]]"
    by (simp add: has_shape_def top2_fields)
  from decode_combines_all_choices[OF top2_installed top2_routing_ok s]
  obtain out where "decode top2_state [[3], [4]] = Inr out"
    "\<forall>t<nat (expected_sample_size top2_state). \<forall>j<nat (model_dim top2_state).
              out ! t ! j =
                (\<Sum>i<length (indices top2_state).
                   if locations top2_state ! i ! t < capacity top2_state
                   then gates top2_state ! i ! t *
                        [[3], [4]] !
                          nat (indices top2_state ! i ! t * capacity top2_state
                                + locations top2_state ! i ! t) ! j
                   else 0)"
    by blast
  then have "(\<Sum>i<length (indices top2_state).
       if locations top2_state ! i ! 0 < capacity top2_state
       then gates top2_state ! i ! 0 *
            [[3], [4]] ! nat (indices top2_state ! i ! 0 * capacity top2_state
                               + locations top2_state ! i ! 0) ! 0
       else 0) = [[7::int]] ! 0 ! 0"
    using top2_decode by (auto simp add: top2_fields)
  then show ?thesis using top2_installed top2_routing_ok s top2_decode by simp
qed


















section \<open>The exchange is its own gradient\<close>


lemma dot_append:
  "length u = length v \<Longrightarrow> dot (u @ u') (v @ v') = dot u v + dot u' v'"
  by (simp add: dot_def)

lemma dot_commute: "dot u v = dot v u"
proof -
  have "map2 (*) u v = map2 (*) v (u :: 'a list)"
    by (rule nth_equalityI) (auto simp: mult.commute)
  then show ?thesis by (simp add: dot_def)
qed

lemma dot_concat:
  assumes "\<forall>j<p. length (f j) = length (g j)"
  shows "dot (concat (map f [0..<p])) (concat (map g [0..<p])) = (\<Sum>j<p. dot (f j) (g j))"
  using assms
proof (induction p)
  case 0
  then show ?case by (simp add: dot_def)
next
  case (Suc p)
  have "map (\<lambda>x. length (f x)) [0..<p] = map (\<lambda>x. length (g x)) [0..<p]"
    by (rule map_cong[OF refl]) (use Suc.prems in auto)
  then have len: "length (concat (map f [0..<p])) = length (concat (map g [0..<p]))"
    unfolding length_concat map_map comp_def by (rule arg_cong)
  have "dot (concat (map f [0..<Suc p])) (concat (map g [0..<Suc p])) =
        dot (concat (map f [0..<p]) @ f p) (concat (map g [0..<p]) @ g p)"
    by simp
  also have "\<dots> = dot (concat (map f [0..<p])) (concat (map g [0..<p])) + dot (f p) (g p)"
    using dot_append[OF len, of "f p" "g p"] by (simp add: dot_def)
  finally show ?case using Suc by simp
qed

lemma length_part: "(k + 1) * c \<le> length l \<Longrightarrow> length (part c k l) = c"
  by (simp add: part_def algebra_simps)

lemma concat_parts:
  "length l = p * c \<Longrightarrow> concat (map (\<lambda>j. part c j l) [0..<p]) = l"
proof (induction p arbitrary: l rule: less_induct)
  case (less p)
  show ?case
  proof (cases p)
    case 0
    then show ?thesis using less.prems by simp
  next
    case (Suc q)
    let ?l' = "take (q * c) l"
    have l': "length ?l' = q * c" using less.prems Suc by simp
    have "concat (map (\<lambda>j. part c j ?l') [0..<q]) = ?l'"
      using less.IH[of q ?l'] Suc l' by simp
    moreover have "map (\<lambda>j. part c j ?l') [0..<q] = map (\<lambda>j. part c j l) [0..<q]"
    proof (rule map_cong[OF refl])
      fix j assume "j \<in> set [0..<q]"
      then have "Suc j \<le> q" by simp
      then have "Suc j * c \<le> q * c" by (rule mult_le_mono1)
      then have le: "j * c + c \<le> q * c" by simp
      have "take c (drop (j * c) (take (q * c) l)) = take c (take (q * c - j * c) (drop (j * c) l))"
        by (simp add: drop_take)
      also have "\<dots> = take c (drop (j * c) l)"
        using le by (simp add: min_def)
      finally show "part c j ?l' = part c j l" by (simp add: part_def)
    qed
    moreover have "part c q l = drop (q * c) l"
      using less.prems Suc by (simp add: part_def)
    ultimately show ?thesis using Suc by simp
  qed
qed



lemma rank_view_size: "get_world_size (rank_view p r) = int p"
  "get_world_rank (rank_view p r) = int r"
  by (simp_all add: rank_view_def get_world_size_def get_world_rank_def)

lemma prepare_mode:
  "a2a_type (prepare rt g st) =
     (if \<not> has_all_to_all_single rt \<and> (a2a_type st AND 1) = 1
      then a2a_type st XOR 3 else a2a_type st)"
  by (simp add: prepare_def Let_def issue_def)

lemma all_to_all_single_balanced:
  assumes p: "0 < p" and r: "r < p" and len: "length ts = p"
    and shapes: "\<forall>t\<in>set ts. shape t = (d0 * p) # rest"
  shows "dist_all_to_all_single r ts =
           Inr \<lparr> shape = (d0 * p) # rest,
                 elems = concat (map (\<lambda>t. part (d0 * prod_list rest) r (elems t)) ts) \<rparr>"
proof -
  have shr: "shape (ts ! r) = (d0 * p) # rest" using shapes r len by simp
  have same: "list_all (\<lambda>t. shape t = shape (ts ! r)) ts"
    using shapes shr by (simp add: list_all_iff)
  have "numel (ts ! r) = (d0 * prod_list rest) * p"
    by (simp add: numel_def shr algebra_simps)
  then have nd: "numel (ts ! r) div p = d0 * prod_list rest" using p by simp
  show ?thesis
    using same by (simp add: dist_all_to_all_single_def Let_def len shr nd)
qed

lemma alltoall_forward_balanced:
  assumes p: "1 < p" and r: "r < p" and len: "length ts = p"
    and shapes: "\<forall>t\<in>set ts. shape t = (d0 * p) # rest"
  shows "snd (AllToAll_forward rt st (rank_view p r) (ts ! r) ts) =
           Inr (if exchange_mode rt st = 0 then ts ! r
                else \<lparr> shape = (d0 * p) # rest,
                       elems = concat (map (\<lambda>t. part (d0 * prod_list rest) r (elems t)) ts) \<rparr>)"
proof -
  let ?g = "rank_view p r"
  let ?st1 = "if \<not> prepared st then prepare rt ?g st else st"
  have mode: "a2a_type ?st1 = exchange_mode rt st"
    by (simp add: exchange_mode_def prepare_mode)
  have np: "\<not> int p \<le> 1" "0 < p" using p by simp_all
  have con: "contributions ?g (ts ! r) ts = Inr ts"
    using contributions_ok[OF rank_view_size(1) rank_view_size(2) r len, of "ts ! r"] by simp
  have ex: "dist_all_to_all_single r ts =
           Inr \<lparr> shape = (d0 * p) # rest,
                 elems = concat (map (\<lambda>t. part (d0 * prod_list rest) r (elems t)) ts) \<rparr>"
    by (rule all_to_all_single_balanced[OF np(2) r len shapes])
  show ?thesis
  proof (cases "exchange_mode rt st = 0")
    case True
    then show ?thesis
      unfolding AllToAll_forward_def Let_def mode by simp
  next
    case False
    then show ?thesis
      unfolding AllToAll_forward_def Let_def mode rank_view_size
      using np(1) by (simp add: con ex external_all2all_def)
  qed
qed

lemma exchange_adjoint:
  assumes xl: "length xs = p" and yl: "length ys = p"
    and xe: "\<forall>t\<in>set xs. length (elems t) = p * c"
    and ye: "\<forall>t\<in>set ys. length (elems t) = p * c"
  shows "(\<Sum>r<p. dot (concat (map (\<lambda>t. part c r (elems t)) xs)) (elems (ys ! r))) =
         (\<Sum>r<p. dot (elems (xs ! r)) (concat (map (\<lambda>t. part c r (elems t)) ys)))"
proof -
  have xmap: "map (\<lambda>t. part c r (elems t)) xs = map (\<lambda>j. part c r (elems (xs ! j))) [0..<p]" for r
    using xl by (intro nth_equalityI) auto
  have ymap: "map (\<lambda>t. part c r (elems t)) ys = map (\<lambda>j. part c r (elems (ys ! j))) [0..<p]" for r
    using yl by (intro nth_equalityI) auto
  have xlen: "length (elems (xs ! j)) = p * c" if "j < p" for j using xe xl that by simp
  have ylen: "length (elems (ys ! j)) = p * c" if "j < p" for j using ye yl that by simp
  have plen: "length (part c k l) = c" if "k < p" "length l = p * c" for k and l :: "'a list"
  proof -
    from that(1) have "Suc k \<le> p" by simp
    then have "Suc k * c \<le> p * c" by (rule mult_le_mono1)
    then show ?thesis using that(2) by (intro length_part) simp
  qed
  have left: "dot (concat (map (\<lambda>t. part c r (elems t)) xs)) (elems (ys ! r)) =
        (\<Sum>j<p. dot (part c r (elems (xs ! j))) (part c j (elems (ys ! r))))" if "r < p" for r
  proof -
    have "elems (ys ! r) = concat (map (\<lambda>j. part c j (elems (ys ! r))) [0..<p])"
      using concat_parts[OF ylen[OF that]] by simp
    then have "dot (concat (map (\<lambda>t. part c r (elems t)) xs)) (elems (ys ! r)) =
        dot (concat (map (\<lambda>j. part c r (elems (xs ! j))) [0..<p]))
            (concat (map (\<lambda>j. part c j (elems (ys ! r))) [0..<p]))"
      by (simp only: xmap)
    also have "\<dots> = (\<Sum>j<p. dot (part c r (elems (xs ! j))) (part c j (elems (ys ! r))))"
      by (rule dot_concat) (simp add: plen that xlen ylen)
    finally show ?thesis .
  qed
  have right: "dot (elems (xs ! r)) (concat (map (\<lambda>t. part c r (elems t)) ys)) =
        (\<Sum>j<p. dot (part c j (elems (xs ! r))) (part c r (elems (ys ! j))))" if "r < p" for r
  proof -
    have "elems (xs ! r) = concat (map (\<lambda>j. part c j (elems (xs ! r))) [0..<p])"
      using concat_parts[OF xlen[OF that]] by simp
    then have "dot (elems (xs ! r)) (concat (map (\<lambda>t. part c r (elems t)) ys)) =
        dot (concat (map (\<lambda>j. part c j (elems (xs ! r))) [0..<p]))
            (concat (map (\<lambda>j. part c r (elems (ys ! j))) [0..<p]))"
      by (simp only: ymap)
    also have "\<dots> = (\<Sum>j<p. dot (part c j (elems (xs ! r))) (part c r (elems (ys ! j))))"
      by (rule dot_concat) (simp add: plen that xlen ylen)
    finally show ?thesis .
  qed
  have "(\<Sum>r<p. dot (concat (map (\<lambda>t. part c r (elems t)) xs)) (elems (ys ! r))) =
        (\<Sum>r<p. \<Sum>j<p. dot (part c r (elems (xs ! j))) (part c j (elems (ys ! r))))"
    by (rule sum.cong) (simp_all add: left)
  also have "\<dots> = (\<Sum>j<p. \<Sum>r<p. dot (part c r (elems (xs ! j))) (part c j (elems (ys ! r))))"
    by (rule sum.swap)
  also have "\<dots> = (\<Sum>r<p. dot (elems (xs ! r)) (concat (map (\<lambda>t. part c r (elems t)) ys)))"
    by (rule sum.cong) (simp_all add: right)
  finally show ?thesis .
qed



lemma alltoall_backward_unfold:
  "AllToAll_backward rt st (AllToAll_ctx g) grad_output peers =
     (case AllToAll_forward rt st g grad_output peers of
        (st', r) \<Rightarrow> (st', map_sum id (Pair None) r))"
  by (simp add: AllToAll_backward_def AllToAll_ctx_def split: prod.splits sum.splits)

lemma returned_grad_elems_backward:
  "returned_grad_elems (AllToAll_backward rt st (AllToAll_ctx g) grad_output peers) =
     returned_elems (AllToAll_forward rt st g grad_output peers)"
  by (simp add: alltoall_backward_unfold returned_grad_elems_def returned_elems_def
        split: prod.splits sum.splits)

text \<open>
  Claim C4. For every group, every state of the process and every gradient tensor, the
  backward of \<open>AllToAll\<close> returns \<open>None\<close> for the group and, for the tensor, what
  the forward of \<open>AllToAll\<close> returns on that gradient over the same group, leaving
  the process in the same state and failing where the forward fails. Under a balanced
  partition (\<open>P > 1\<close> workers, tensors of one shape whose leading dimension is a
  multiple of \<open>P\<close>) the operator is its own adjoint: summed over the workers, the
  inner product of the forward outputs of \<open>x\<close> with \<open>y\<close> equals the inner product
  of \<open>x\<close> with the backward outputs of \<open>y\<close>.
\<close>

theorem alltoall_backward_is_forward:
  "AllToAll_backward rt st (AllToAll_ctx g) grad_output peers =
     (case AllToAll_forward rt st g grad_output peers of
        (st', r) \<Rightarrow> (st', map_sum id (Pair None) r)) \<and>
   (1 < p \<and> length xs = p \<and> length ys = p \<and>
    (\<forall>t\<in>set xs \<union> set ys. shape t = (d0 * p) # rest \<and> wf_tensor t) \<longrightarrow>
    (\<Sum>r<p. dot (returned_elems (AllToAll_forward rt st (rank_view p r) (xs ! r) xs))
               (elems (ys ! r))) =
    (\<Sum>r<p. dot (elems (xs ! r))
               (returned_grad_elems
                  (AllToAll_backward rt st (AllToAll_ctx (rank_view p r)) (ys ! r) ys))))"
proof (intro conjI impI)
  show "AllToAll_backward rt st (AllToAll_ctx g) grad_output peers =
     (case AllToAll_forward rt st g grad_output peers of
        (st', r) \<Rightarrow> (st', map_sum id (Pair None) r))"
    by (rule alltoall_backward_unfold)
next
  let ?c = "d0 * prod_list rest"
  assume a: "1 < p \<and> length xs = p \<and> length ys = p \<and>
    (\<forall>t\<in>set xs \<union> set ys. shape t = (d0 * p) # rest \<and> wf_tensor t)"
  then have p: "1 < p" and xl: "length xs = p" and yl: "length ys = p"
    and xs: "\<forall>t\<in>set xs. shape t = (d0 * p) # rest"
    and ys: "\<forall>t\<in>set ys. shape t = (d0 * p) # rest"
    by auto
  have xe: "\<forall>t\<in>set xs. length (elems t) = p * ?c"
    using a by (auto simp: wf_tensor_def numel_def algebra_simps)
  have ye: "\<forall>t\<in>set ys. length (elems t) = p * ?c"
    using a by (auto simp: wf_tensor_def numel_def algebra_simps)
  have fx: "returned_elems (AllToAll_forward rt st (rank_view p r) (xs ! r) xs) =
      (if exchange_mode rt st = 0 then elems (xs ! r)
       else concat (map (\<lambda>t. part ?c r (elems t)) xs))" if "r < p" for r
    using alltoall_forward_balanced[OF p that xl xs, of rt st]
    by (simp add: returned_elems_def)
  have fy: "returned_grad_elems
        (AllToAll_backward rt st (AllToAll_ctx (rank_view p r)) (ys ! r) ys) =
      (if exchange_mode rt st = 0 then elems (ys ! r)
       else concat (map (\<lambda>t. part ?c r (elems t)) ys))" if "r < p" for r
    using alltoall_forward_balanced[OF p that yl ys, of rt st]
    by (simp add: returned_grad_elems_backward returned_elems_def)
  show "(\<Sum>r<p. dot (returned_elems (AllToAll_forward rt st (rank_view p r) (xs ! r) xs))
               (elems (ys ! r))) =
    (\<Sum>r<p. dot (elems (xs ! r))
               (returned_grad_elems
                  (AllToAll_backward rt st (AllToAll_ctx (rank_view p r)) (ys ! r) ys)))"
  proof (cases "exchange_mode rt st = 0")
    case True
    then show ?thesis by (simp add: fx fy)
  next
    case False
    have "(\<Sum>r<p. dot (returned_elems (AllToAll_forward rt st (rank_view p r) (xs ! r) xs))
               (elems (ys ! r))) =
          (\<Sum>r<p. dot (concat (map (\<lambda>t. part ?c r (elems t)) xs)) (elems (ys ! r)))"
      using False by (intro sum.cong refl) (simp add: fx)
    also have "\<dots> = (\<Sum>r<p. dot (elems (xs ! r)) (concat (map (\<lambda>t. part ?c r (elems t)) ys)))"
      by (rule exchange_adjoint[OF xl yl xe ye])
    also have "\<dots> = (\<Sum>r<p. dot (elems (xs ! r))
               (returned_grad_elems
                  (AllToAll_backward rt st (AllToAll_ctx (rank_view p r)) (ys ! r) ys)))"
      using False by (intro sum.cong refl) (simp add: fy)
    finally show ?thesis .
  qed
qed




lemma ready_mode: "exchange_mode rt ready_process = 1"
  by (simp add: exchange_mode_def ready_process_def)

lemma pair_tensors_balanced:
  "(1::nat) < 2 \<and> length pair_inputs = 2 \<and> length pair_grads = 2 \<and>
   (\<forall>t\<in>set pair_inputs \<union> set pair_grads. shape t = (1 * 2) # [] \<and> wf_tensor t)"
  by (simp add: pair_inputs_def pair_grads_def wf_tensor_def numel_def)

lemma pair_exchange_rank0:
  "snd (AllToAll_forward rt ready_process (rank_view 2 0) (pair_inputs ! 0) pair_inputs)
     = Inr \<lparr> shape = [2], elems = [1, 3] \<rparr>"
proof -
  have a: "(1::nat) < 2" "(0::nat) < 2" "length pair_inputs = 2"
    by (simp_all add: pair_inputs_def)
  have s: "\<forall>t\<in>set pair_inputs. shape t = (1 * 2) # []"
    by (simp add: pair_inputs_def)
  have "snd (AllToAll_forward rt ready_process (rank_view 2 0) (pair_inputs ! 0) pair_inputs)
     = Inr \<lparr> shape = (1 * 2) # [],
             elems = concat (map (\<lambda>t. part (1 * prod_list []) 0 (elems t)) pair_inputs) \<rparr>"
    using alltoall_forward_balanced[OF a(1) a(2) a(3) s, of rt ready_process]
    by (simp only: ready_mode if_False one_neq_zero)
  also have "\<dots> = Inr \<lparr> shape = [2], elems = [1, 3] \<rparr>"
    by (simp add: pair_inputs_def part_def)
  finally show ?thesis .
qed

text \<open>The theorem at two workers exchanging two elements each.\<close>

theorem alltoall_backward_is_forward_witness:
  "(1::nat) < 2 \<and> length pair_inputs = 2 \<and> length pair_grads = 2 \<and>
   list_all (\<lambda>t. shape t = (1 * 2) # [] \<and> wf_tensor t) (pair_inputs @ pair_grads) \<and>
   snd (AllToAll_forward \<lparr> has_all_to_all_single = True \<rparr> ready_process (rank_view 2 0)
          (pair_inputs ! 0) pair_inputs) = Inr \<lparr> shape = [2], elems = [1, 3] \<rparr> \<and>
   (\<Sum>r<2. dot (returned_elems
                  (AllToAll_forward \<lparr> has_all_to_all_single = True \<rparr> ready_process
                     (rank_view 2 r) (pair_inputs ! r) pair_inputs))
               (elems (pair_grads ! r)))
   = (\<Sum>r<2. dot (elems (pair_inputs ! r))
               (returned_grad_elems
                  (AllToAll_backward \<lparr> has_all_to_all_single = True \<rparr> ready_process
                     (AllToAll_ctx (rank_view 2 r)) (pair_grads ! r) pair_grads)))"
proof -
  have imp: "(1::nat) < 2 \<and> length pair_inputs = 2 \<and> length pair_grads = 2 \<and>
    (\<forall>t\<in>set pair_inputs \<union> set pair_grads. shape t = (1 * 2) # [] \<and> wf_tensor t) \<longrightarrow>
   (\<Sum>r<2. dot (returned_elems
                  (AllToAll_forward \<lparr> has_all_to_all_single = True \<rparr> ready_process
                     (rank_view 2 r) (pair_inputs ! r) pair_inputs))
               (elems (pair_grads ! r)))
   = (\<Sum>r<2. dot (elems (pair_inputs ! r))
               (returned_grad_elems
                  (AllToAll_backward \<lparr> has_all_to_all_single = True \<rparr> ready_process
                     (AllToAll_ctx (rank_view 2 r)) (pair_grads ! r) pair_grads)))"
    by (rule conjunct2[OF alltoall_backward_is_forward[where p = 2 and xs = pair_inputs
          and ys = pair_grads and ?d0.0 = 1 and rest = "[]"
          and rt = "\<lparr> has_all_to_all_single = True \<rparr>" and st = ready_process]])
  have all: "list_all (\<lambda>t. shape t = (1 * 2) # [] \<and> wf_tensor t) (pair_inputs @ pair_grads)"
    using pair_tensors_balanced by (simp add: list_all_iff)
  from mp[OF imp pair_tensors_balanced] pair_tensors_balanced all pair_exchange_rank0
  show ?thesis by blast
qed


end
